theory Spec2Isabelle
  imports Main
begin

section \<open>Comparison kernel of the evaluation engine (evalengine/comparisons.go)\<close>

subsection \<open>Values\<close>

text \<open>
  Modelled from the spec: the type tags of package \<open>sqltypes\<close> and its predicates
  \<open>IsText\<close>, \<open>IsIntegral\<close>, \<open>IsFloat\<close> are declared outside the files at hand. The source
  names \<open>sqltypes.Null\<close>, \<open>sqltypes.Int32\<close> and \<open>sqltypes.Decimal\<close>; the spec lists the tags
  NULL, Int64, Uint64, Float64, Decimal, Text(coll), Binary, Date, Time, Tuple. \<open>Null\<close> is
  the first tag: it is the zero value of the enumeration, so the zero \<open>EvalResult{}\<close> has
  type \<open>Null\<close>.
\<close>

datatype sqltype =
  Null | Int32 | Int64 | Uint64 | Float64 | Decimal | Text nat | Binary | Date | Time | Tuple

fun IsText :: "sqltype \<Rightarrow> bool" where
  "IsText (Text coll) = True"
| "IsText _ = False"

fun IsIntegral :: "sqltype \<Rightarrow> bool" where
  "IsIntegral Int32 = True"
| "IsIntegral Int64 = True"
| "IsIntegral Uint64 = True"
| "IsIntegral _ = False"

fun IsFloat :: "sqltype \<Rightarrow> bool" where
  "IsFloat Float64 = True"
| "IsFloat _ = False"

text \<open>
  Modelled from the spec: the struct \<open>EvalResult\<close> is declared outside the files at hand.
  The source builds it from the fields \<open>typ\<close> and \<open>ival\<close> (\<open>resultTrue\<close>, \<open>resultFalse\<close>,
  \<open>resultNull\<close>); the spec calls a value a tagged pair of a type tag and a payload. The
  payload of a value that is not an integer is kept as its bytes. The field \<open>typ\<close> is
  written \<open>typ'\<close>.
\<close>

record EvalResult =
  typ' :: sqltype
  ival :: int
  bytes :: string

text \<open>The zero value \<open>EvalResult{}\<close>: every field zero.\<close>

definition zeroEvalResult :: EvalResult where
  "zeroEvalResult = \<lparr>typ' = Null, ival = 0, bytes = []\<rparr>"

definition resultTrue :: EvalResult where
  "resultTrue = \<lparr>typ' = Int32, ival = 1, bytes = []\<rparr>"

definition resultFalse :: EvalResult where
  "resultFalse = \<lparr>typ' = Int32, ival = 0, bytes = []\<rparr>"

definition resultNull :: EvalResult where
  "resultNull = \<lparr>typ' = Null, ival = 0, bytes = []\<rparr>"

subsection \<open>Errors, panics and effects\<close>

text \<open>
  Modelled from the spec: the error values of packages \<open>vterrors\<close> and \<open>vtrpcpb\<close> are
  declared outside the files at hand. An error is a code and a message, as the call
  \<open>vterrors.Errorf(code, message)\<close> of the source builds it; of the codes the source names
  \<open>Code_INTERNAL\<close> only.
\<close>

datatype Code = Code_INTERNAL | Code_UNKNOWN

datatype error = Errorf Code string

text \<open>
  A Go function returning \<open>(T, error)\<close> returns a pair whose second component is \<open>None\<close>
  for the nil error. A panic is a separate outcome that carries the panic message.
\<close>

datatype 'a outcome = Return 'a | Panic string

text \<open>
  \<open>Expr\<close> and \<open>ExpressionEnv\<close> are declared outside the files at hand: the environment
  is a type parameter, and \<open>Evaluate(env)\<close> of a sub-expression is any computation that
  may read and change a state \<open>'s\<close> (whatever the implementation touches), return a
  value with or without an error, or panic.
\<close>

type_synonym ('env, 's) Expr = "'env \<Rightarrow> 's \<Rightarrow> (EvalResult \<times> error option) outcome \<times> 's"

datatype ComparisonOp =
  EqualOp | NotEqualOp | NullSafeEqualOp | LessThanOp | LessEqualOp | GreaterThanOp
  | GreaterEqualOp | InOp | NotInOp | LikeOp | NotLikeOp | RegexpOp | NotRegexpOp

text \<open>The field \<open>Op\<close> is an interface value: \<open>None\<close> is nil.\<close>

record ('env, 's) ComparisonExpr =
  Op :: "ComparisonOp option"
  Left :: "('env, 's) Expr"
  Right :: "('env, 's) Expr"

subsection \<open>Operand evaluation\<close>

definition evaluateComparisonExprs ::
  "('env, 's) ComparisonExpr \<Rightarrow> 'env \<Rightarrow> 's
    \<Rightarrow> (EvalResult \<times> EvalResult \<times> error option) outcome \<times> 's" where
  "evaluateComparisonExprs c env s =
     (case Left c env s of
        (Panic m, s1) \<Rightarrow> (Panic m, s1)
      | (Return (lVal, Some err), s1) \<Rightarrow>
          (Return (zeroEvalResult, zeroEvalResult, Some err), s1)
      | (Return (lVal, None), s1) \<Rightarrow>
          (case Right c env s1 of
             (Panic m, s2) \<Rightarrow> (Panic m, s2)
           | (Return (rVal, Some err), s2) \<Rightarrow>
               (Return (zeroEvalResult, zeroEvalResult, Some err), s2)
           | (Return (rVal, None), s2) \<Rightarrow> (Return (lVal, rVal, None), s2)))"

definition hasNullEvalResult :: "EvalResult \<Rightarrow> EvalResult \<Rightarrow> bool" where
  "hasNullEvalResult l r \<longleftrightarrow> typ' l = Null \<or> typ' r = Null"

definition evalResultsAreString :: "EvalResult \<Rightarrow> EvalResult \<Rightarrow> bool" where
  "evalResultsAreString l r \<longleftrightarrow> IsText (typ' l) \<and> IsText (typ' r)"

definition evalResultsAreInteger :: "EvalResult \<Rightarrow> EvalResult \<Rightarrow> bool" where
  "evalResultsAreInteger l r \<longleftrightarrow> IsIntegral (typ' l) \<and> IsIntegral (typ' r)"

definition needsDecimalHandling :: "EvalResult \<Rightarrow> EvalResult \<Rightarrow> bool" where
  "needsDecimalHandling l r \<longleftrightarrow>
     typ' l = Decimal \<and> (typ' r = Decimal \<or> IsIntegral (typ' r)) \<or>
     typ' r = Decimal \<and> (typ' l = Decimal \<or> IsIntegral (typ' l))"

definition needsFloatHandling :: "EvalResult \<Rightarrow> EvalResult \<Rightarrow> bool" where
  "needsFloatHandling l r \<longleftrightarrow>
     typ' l = Decimal \<and> IsFloat (typ' r) \<or> typ' r = Decimal \<and> IsFloat (typ' l)"

subsection \<open>Ordered comparison\<close>

text \<open>
  \<open>compareNumeric\<close> and \<open>makeNumeric\<close> are functions of the package that are not among
  the files at hand: they are parameters of everything that calls them.
  \<open>compareNumeric\<close> returns \<open>(int, error)\<close>, \<open>makeNumeric\<close> returns an \<open>EvalResult\<close>.
\<close>

type_synonym compareNumeric_t = "EvalResult \<Rightarrow> EvalResult \<Rightarrow> (int \<times> error option) outcome"
type_synonym makeNumeric_t = "EvalResult \<Rightarrow> EvalResult"

definition executeComparison ::
  "compareNumeric_t \<Rightarrow> makeNumeric_t \<Rightarrow> EvalResult \<Rightarrow> EvalResult
    \<Rightarrow> (int \<times> error option) outcome" where
  "executeComparison compareNumeric makeNumeric lVal rVal =
     (if evalResultsAreString lVal rVal then Panic ''not implemented yet''
      else if evalResultsAreInteger lVal rVal \<or> needsFloatHandling lVal rVal
        then compareNumeric lVal rVal
      else if needsDecimalHandling lVal rVal then Panic ''not implemented yet''
      else compareNumeric (makeNumeric lVal) (makeNumeric rVal))"

subsection \<open>The operators\<close>

text \<open>
  Each operator has its \<open>Evaluate\<close> and its \<open>IsTrue\<close>, in the order of the source.
  In the six ordered operators \<open>IsTrue\<close> returns \<open>false\<close> with the error of
  \<open>executeComparison\<close>, or the test of the sign; \<open>Evaluate\<close> is
  \<open>if out, err := x.IsTrue(left, right); err != nil || !out { return resultFalse, err }\<close>
  followed by \<open>return resultTrue, nil\<close>. In the seven others \<open>Evaluate\<close> is
  \<open>panic("implement me")\<close> and \<open>IsTrue\<close> is \<open>return false, nil\<close>.
\<close>

definition EqualOp_IsTrue ::
  "compareNumeric_t \<Rightarrow> makeNumeric_t \<Rightarrow> EvalResult \<Rightarrow> EvalResult
    \<Rightarrow> (bool \<times> error option) outcome" where
  "EqualOp_IsTrue compareNumeric makeNumeric left right =
     (case executeComparison compareNumeric makeNumeric left right of
        Panic m \<Rightarrow> Panic m
      | Return (numeric, Some err) \<Rightarrow> Return (False, Some err)
      | Return (numeric, None) \<Rightarrow> Return (numeric = 0, None))"

definition EqualOp_Evaluate ::
  "compareNumeric_t \<Rightarrow> makeNumeric_t \<Rightarrow> EvalResult \<Rightarrow> EvalResult
    \<Rightarrow> (EvalResult \<times> error option) outcome" where
  "EqualOp_Evaluate compareNumeric makeNumeric left right =
     (case EqualOp_IsTrue compareNumeric makeNumeric left right of
        Panic m \<Rightarrow> Panic m
      | Return (out, err) \<Rightarrow>
          (if err \<noteq> None \<or> \<not> out then Return (resultFalse, err)
           else Return (resultTrue, None)))"

definition NotEqualOp_IsTrue ::
  "compareNumeric_t \<Rightarrow> makeNumeric_t \<Rightarrow> EvalResult \<Rightarrow> EvalResult
    \<Rightarrow> (bool \<times> error option) outcome" where
  "NotEqualOp_IsTrue compareNumeric makeNumeric left right =
     (case executeComparison compareNumeric makeNumeric left right of
        Panic m \<Rightarrow> Panic m
      | Return (numeric, Some err) \<Rightarrow> Return (False, Some err)
      | Return (numeric, None) \<Rightarrow> Return (numeric \<noteq> 0, None))"

definition NotEqualOp_Evaluate ::
  "compareNumeric_t \<Rightarrow> makeNumeric_t \<Rightarrow> EvalResult \<Rightarrow> EvalResult
    \<Rightarrow> (EvalResult \<times> error option) outcome" where
  "NotEqualOp_Evaluate compareNumeric makeNumeric left right =
     (case NotEqualOp_IsTrue compareNumeric makeNumeric left right of
        Panic m \<Rightarrow> Panic m
      | Return (out, err) \<Rightarrow>
          (if err \<noteq> None \<or> \<not> out then Return (resultFalse, err)
           else Return (resultTrue, None)))"

definition NullSafeEqualOp_Evaluate ::
  "EvalResult \<Rightarrow> EvalResult \<Rightarrow> (EvalResult \<times> error option) outcome" where
  "NullSafeEqualOp_Evaluate left right = Panic ''implement me''"

definition NullSafeEqualOp_IsTrue ::
  "EvalResult \<Rightarrow> EvalResult \<Rightarrow> (bool \<times> error option) outcome" where
  "NullSafeEqualOp_IsTrue left right = Return (False, None)"

definition LessThanOp_IsTrue ::
  "compareNumeric_t \<Rightarrow> makeNumeric_t \<Rightarrow> EvalResult \<Rightarrow> EvalResult
    \<Rightarrow> (bool \<times> error option) outcome" where
  "LessThanOp_IsTrue compareNumeric makeNumeric left right =
     (case executeComparison compareNumeric makeNumeric left right of
        Panic m \<Rightarrow> Panic m
      | Return (numeric, Some err) \<Rightarrow> Return (False, Some err)
      | Return (numeric, None) \<Rightarrow> Return (numeric < 0, None))"

definition LessThanOp_Evaluate ::
  "compareNumeric_t \<Rightarrow> makeNumeric_t \<Rightarrow> EvalResult \<Rightarrow> EvalResult
    \<Rightarrow> (EvalResult \<times> error option) outcome" where
  "LessThanOp_Evaluate compareNumeric makeNumeric left right =
     (case LessThanOp_IsTrue compareNumeric makeNumeric left right of
        Panic m \<Rightarrow> Panic m
      | Return (out, err) \<Rightarrow>
          (if err \<noteq> None \<or> \<not> out then Return (resultFalse, err)
           else Return (resultTrue, None)))"

definition LessEqualOp_IsTrue ::
  "compareNumeric_t \<Rightarrow> makeNumeric_t \<Rightarrow> EvalResult \<Rightarrow> EvalResult
    \<Rightarrow> (bool \<times> error option) outcome" where
  "LessEqualOp_IsTrue compareNumeric makeNumeric left right =
     (case executeComparison compareNumeric makeNumeric left right of
        Panic m \<Rightarrow> Panic m
      | Return (numeric, Some err) \<Rightarrow> Return (False, Some err)
      | Return (numeric, None) \<Rightarrow> Return (numeric \<le> 0, None))"

definition LessEqualOp_Evaluate ::
  "compareNumeric_t \<Rightarrow> makeNumeric_t \<Rightarrow> EvalResult \<Rightarrow> EvalResult
    \<Rightarrow> (EvalResult \<times> error option) outcome" where
  "LessEqualOp_Evaluate compareNumeric makeNumeric left right =
     (case LessEqualOp_IsTrue compareNumeric makeNumeric left right of
        Panic m \<Rightarrow> Panic m
      | Return (out, err) \<Rightarrow>
          (if err \<noteq> None \<or> \<not> out then Return (resultFalse, err)
           else Return (resultTrue, None)))"

definition GreaterThanOp_IsTrue ::
  "compareNumeric_t \<Rightarrow> makeNumeric_t \<Rightarrow> EvalResult \<Rightarrow> EvalResult
    \<Rightarrow> (bool \<times> error option) outcome" where
  "GreaterThanOp_IsTrue compareNumeric makeNumeric left right =
     (case executeComparison compareNumeric makeNumeric left right of
        Panic m \<Rightarrow> Panic m
      | Return (numeric, Some err) \<Rightarrow> Return (False, Some err)
      | Return (numeric, None) \<Rightarrow> Return (numeric > 0, None))"

definition GreaterThanOp_Evaluate ::
  "compareNumeric_t \<Rightarrow> makeNumeric_t \<Rightarrow> EvalResult \<Rightarrow> EvalResult
    \<Rightarrow> (EvalResult \<times> error option) outcome" where
  "GreaterThanOp_Evaluate compareNumeric makeNumeric left right =
     (case GreaterThanOp_IsTrue compareNumeric makeNumeric left right of
        Panic m \<Rightarrow> Panic m
      | Return (out, err) \<Rightarrow>
          (if err \<noteq> None \<or> \<not> out then Return (resultFalse, err)
           else Return (resultTrue, None)))"

definition GreaterEqualOp_IsTrue ::
  "compareNumeric_t \<Rightarrow> makeNumeric_t \<Rightarrow> EvalResult \<Rightarrow> EvalResult
    \<Rightarrow> (bool \<times> error option) outcome" where
  "GreaterEqualOp_IsTrue compareNumeric makeNumeric left right =
     (case executeComparison compareNumeric makeNumeric left right of
        Panic m \<Rightarrow> Panic m
      | Return (numeric, Some err) \<Rightarrow> Return (False, Some err)
      | Return (numeric, None) \<Rightarrow> Return (numeric \<ge> 0, None))"

definition GreaterEqualOp_Evaluate ::
  "compareNumeric_t \<Rightarrow> makeNumeric_t \<Rightarrow> EvalResult \<Rightarrow> EvalResult
    \<Rightarrow> (EvalResult \<times> error option) outcome" where
  "GreaterEqualOp_Evaluate compareNumeric makeNumeric left right =
     (case GreaterEqualOp_IsTrue compareNumeric makeNumeric left right of
        Panic m \<Rightarrow> Panic m
      | Return (out, err) \<Rightarrow>
          (if err \<noteq> None \<or> \<not> out then Return (resultFalse, err)
           else Return (resultTrue, None)))"

definition InOp_Evaluate ::
  "EvalResult \<Rightarrow> EvalResult \<Rightarrow> (EvalResult \<times> error option) outcome" where
  "InOp_Evaluate left right = Panic ''implement me''"

definition InOp_IsTrue ::
  "EvalResult \<Rightarrow> EvalResult \<Rightarrow> (bool \<times> error option) outcome" where
  "InOp_IsTrue left right = Return (False, None)"

definition NotInOp_Evaluate ::
  "EvalResult \<Rightarrow> EvalResult \<Rightarrow> (EvalResult \<times> error option) outcome" where
  "NotInOp_Evaluate left right = Panic ''implement me''"

definition NotInOp_IsTrue ::
  "EvalResult \<Rightarrow> EvalResult \<Rightarrow> (bool \<times> error option) outcome" where
  "NotInOp_IsTrue left right = Return (False, None)"

definition LikeOp_Evaluate ::
  "EvalResult \<Rightarrow> EvalResult \<Rightarrow> (EvalResult \<times> error option) outcome" where
  "LikeOp_Evaluate left right = Panic ''implement me''"

definition LikeOp_IsTrue ::
  "EvalResult \<Rightarrow> EvalResult \<Rightarrow> (bool \<times> error option) outcome" where
  "LikeOp_IsTrue left right = Return (False, None)"

definition NotLikeOp_Evaluate ::
  "EvalResult \<Rightarrow> EvalResult \<Rightarrow> (EvalResult \<times> error option) outcome" where
  "NotLikeOp_Evaluate left right = Panic ''implement me''"

definition NotLikeOp_IsTrue ::
  "EvalResult \<Rightarrow> EvalResult \<Rightarrow> (bool \<times> error option) outcome" where
  "NotLikeOp_IsTrue left right = Return (False, None)"

definition RegexpOp_Evaluate ::
  "EvalResult \<Rightarrow> EvalResult \<Rightarrow> (EvalResult \<times> error option) outcome" where
  "RegexpOp_Evaluate left right = Panic ''implement me''"

definition RegexpOp_IsTrue ::
  "EvalResult \<Rightarrow> EvalResult \<Rightarrow> (bool \<times> error option) outcome" where
  "RegexpOp_IsTrue left right = Return (False, None)"

definition NotRegexpOp_Evaluate ::
  "EvalResult \<Rightarrow> EvalResult \<Rightarrow> (EvalResult \<times> error option) outcome" where
  "NotRegexpOp_Evaluate left right = Panic ''implement me''"

definition NotRegexpOp_IsTrue ::
  "EvalResult \<Rightarrow> EvalResult \<Rightarrow> (bool \<times> error option) outcome" where
  "NotRegexpOp_IsTrue left right = Return (False, None)"

text \<open>
  A call through the interface \<open>ComparisonOp\<close> goes to the method of the operator's
  type.
\<close>

fun ComparisonOp_Evaluate ::
  "ComparisonOp \<Rightarrow> compareNumeric_t \<Rightarrow> makeNumeric_t \<Rightarrow> EvalResult \<Rightarrow> EvalResult
    \<Rightarrow> (EvalResult \<times> error option) outcome" where
  "ComparisonOp_Evaluate EqualOp cn mk left right = EqualOp_Evaluate cn mk left right"
| "ComparisonOp_Evaluate NotEqualOp cn mk left right = NotEqualOp_Evaluate cn mk left right"
| "ComparisonOp_Evaluate NullSafeEqualOp cn mk left right = NullSafeEqualOp_Evaluate left right"
| "ComparisonOp_Evaluate LessThanOp cn mk left right = LessThanOp_Evaluate cn mk left right"
| "ComparisonOp_Evaluate LessEqualOp cn mk left right = LessEqualOp_Evaluate cn mk left right"
| "ComparisonOp_Evaluate GreaterThanOp cn mk left right = GreaterThanOp_Evaluate cn mk left right"
| "ComparisonOp_Evaluate GreaterEqualOp cn mk left right = GreaterEqualOp_Evaluate cn mk left right"
| "ComparisonOp_Evaluate InOp cn mk left right = InOp_Evaluate left right"
| "ComparisonOp_Evaluate NotInOp cn mk left right = NotInOp_Evaluate left right"
| "ComparisonOp_Evaluate LikeOp cn mk left right = LikeOp_Evaluate left right"
| "ComparisonOp_Evaluate NotLikeOp cn mk left right = NotLikeOp_Evaluate left right"
| "ComparisonOp_Evaluate RegexpOp cn mk left right = RegexpOp_Evaluate left right"
| "ComparisonOp_Evaluate NotRegexpOp cn mk left right = NotRegexpOp_Evaluate left right"

fun ComparisonOp_IsTrue ::
  "ComparisonOp \<Rightarrow> compareNumeric_t \<Rightarrow> makeNumeric_t \<Rightarrow> EvalResult \<Rightarrow> EvalResult
    \<Rightarrow> (bool \<times> error option) outcome" where
  "ComparisonOp_IsTrue EqualOp cn mk left right = EqualOp_IsTrue cn mk left right"
| "ComparisonOp_IsTrue NotEqualOp cn mk left right = NotEqualOp_IsTrue cn mk left right"
| "ComparisonOp_IsTrue NullSafeEqualOp cn mk left right = NullSafeEqualOp_IsTrue left right"
| "ComparisonOp_IsTrue LessThanOp cn mk left right = LessThanOp_IsTrue cn mk left right"
| "ComparisonOp_IsTrue LessEqualOp cn mk left right = LessEqualOp_IsTrue cn mk left right"
| "ComparisonOp_IsTrue GreaterThanOp cn mk left right = GreaterThanOp_IsTrue cn mk left right"
| "ComparisonOp_IsTrue GreaterEqualOp cn mk left right = GreaterEqualOp_IsTrue cn mk left right"
| "ComparisonOp_IsTrue InOp cn mk left right = InOp_IsTrue left right"
| "ComparisonOp_IsTrue NotInOp cn mk left right = NotInOp_IsTrue left right"
| "ComparisonOp_IsTrue LikeOp cn mk left right = LikeOp_IsTrue left right"
| "ComparisonOp_IsTrue NotLikeOp cn mk left right = NotLikeOp_IsTrue left right"
| "ComparisonOp_IsTrue RegexpOp cn mk left right = RegexpOp_IsTrue left right"
| "ComparisonOp_IsTrue NotRegexpOp cn mk left right = NotRegexpOp_IsTrue left right"

subsection \<open>Evaluation of a comparison expression\<close>

definition ComparisonExpr_Evaluate ::
  "compareNumeric_t \<Rightarrow> makeNumeric_t \<Rightarrow> ('env, 's) ComparisonExpr \<Rightarrow> 'env \<Rightarrow> 's
    \<Rightarrow> (EvalResult \<times> error option) outcome \<times> 's" where
  "ComparisonExpr_Evaluate compareNumeric makeNumeric c env s =
     (case Op c of
        None \<Rightarrow>
          (Return (zeroEvalResult,
             Some (Errorf Code_INTERNAL ''a comparison expression needs a comparison operator'')),
           s)
      | Some op \<Rightarrow>
          (case evaluateComparisonExprs c env s of
             (Panic m, s') \<Rightarrow> (Panic m, s')
           | (Return (lVal, rVal, Some err), s') \<Rightarrow> (Return (zeroEvalResult, Some err), s')
           | (Return (lVal, rVal, None), s') \<Rightarrow>
               (if hasNullEvalResult lVal rVal \<and> op \<noteq> NullSafeEqualOp
                then (Return (resultNull, None), s')
                else (ComparisonOp_Evaluate op compareNumeric makeNumeric lVal rVal, s'))))"

text \<open>
  A sub-expression that returns a given value and touches nothing, to build concrete
  inputs; it stands for a literal of the engine.
\<close>

definition literal :: "EvalResult \<Rightarrow> ('env, 's) Expr" where
  "literal v env s = (Return (v, None), s)"

section \<open>VDiff: state store, controller, shard differ and retry engine\<close>

text \<open>
  Modelled from the spec: the VDiff engine (controller, shard differ, state store and
  retry/resume engine) is not among the files at hand; only its end-to-end test is. The
  definitions of this section follow sections 3 and 4.1 to 4.4 of the spec. Transitions on
  one shard are atomic and totally ordered, as the spec has them; time stamps and the
  JSON report are left out.
\<close>

subsection \<open>Sidecar tables of one target shard\<close>

text \<open>
  Modelled from the spec: the states of a run and of a table of a run (section 3).
\<close>

datatype vdiff_state = Pending | Started | Stopped | Error | Completed

text \<open>
  Modelled from the spec: the two classes of stream errors (section 4.4).
\<close>

datatype error_class = Ephemeral | Permanent

text \<open>
  Modelled from the spec: a row of table \<open>vdiff\<close>. \<open>last_error\<close> is \<open>None\<close> when cleared;
  \<open>tables\<close> is the table list of the run (part of \<open>options_json\<close>).
\<close>

record vdiff_row =
  vd_id :: nat
  vdiff_uuid :: string
  keyspace :: string
  workflow :: string
  state :: vdiff_state
  last_error :: "(error_class \<times> string) option"
  tables :: "string list"
  rows_compared :: nat

text \<open>
  Modelled from the spec: a row of table \<open>vdiff_table\<close>, one per run and table. \<open>lastpk\<close>
  is the checkpoint, the last compared primary key.
\<close>

record vdiff_table_row =
  vdiff_id :: nat
  table_name :: string
  table_state :: vdiff_state
  table_rows_compared :: nat
  mismatched_rows :: nat
  lastpk :: "int option"

text \<open>Modelled from the spec: a row of the audit table \<open>vdiff_log\<close>.\<close>

record vdiff_log_row =
  log_vdiff_id :: nat
  message :: string

text \<open>
  Modelled from the spec: the sidecar database of one target shard. \<open>next_id\<close> is the
  auto-increment counter of \<open>vdiff.id\<close>.
\<close>

record sidecar =
  vdiff :: "vdiff_row list"
  vdiff_table :: "vdiff_table_row list"
  vdiff_log :: "vdiff_log_row list"
  next_id :: nat

text \<open>
  Modelled from the spec: the sidecar of a shard before any run.
\<close>

definition empty_sidecar :: sidecar where
  "empty_sidecar = \<lparr>vdiff = [], vdiff_table = [], vdiff_log = [], next_id = 1\<rparr>"

subsection \<open>Shard differ\<close>

text \<open>
  Modelled from the spec: a row of a stream is its primary key and its other columns
  (\<open>None\<close> is SQL NULL); a stream is ordered by primary key. \<open>table_data\<close> gives the
  stream of each table as one shard sees it.
\<close>

type_synonym row = "int \<times> string option list"
type_synonym table_data = "string \<Rightarrow> row list"

text \<open>Modelled from the spec: the stream opened at a checkpoint holds the rows after it.\<close>

fun from_checkpoint :: "int option \<Rightarrow> row list \<Rightarrow> row list" where
  "from_checkpoint None rows = rows"
| "from_checkpoint (Some pk) rows = filter (\<lambda>r. pk < fst r) rows"

text \<open>
  Modelled from the spec: the progress of the differ on one table: rows compared, rows that
  mismatch, and the checkpoint; \<open>advance\<close> accounts for one row and moves the checkpoint
  to its key.
\<close>

record progress =
  compared :: nat
  mismatched :: nat
  checkpoint :: "int option"

definition advance :: "int \<Rightarrow> bool \<Rightarrow> progress \<Rightarrow> progress" where
  "advance pk differs p =
     \<lparr>compared = Suc (compared p),
      mismatched = (if differs then Suc (mismatched p) else mismatched p),
      checkpoint = Some pk\<rparr>"

text \<open>
  Modelled from the spec: the budget of a differ is the number of rows it handles before
  it sees a cancellation; \<open>None\<close> is a differ that is not cancelled.
\<close>

fun spend :: "nat option \<Rightarrow> nat \<Rightarrow> nat option" where
  "spend None n = None"
| "spend (Some b) n = Some (b - n)"

text \<open>
  Modelled from the spec: the merge of section 4.2, step 2c, with a checkpoint after every
  row. Equal keys: the other columns are compared. A key on one side only is an extra or
  missing row and counts as a mismatch. The flag returned says that both streams are
  exhausted.
\<close>

fun merge_compare :: "nat option \<Rightarrow> row list \<Rightarrow> row list \<Rightarrow> progress \<Rightarrow> progress \<times> bool" where
  "merge_compare (Some 0) src tgt p = (p, src = [] \<and> tgt = [])"
| "merge_compare b [] [] p = (p, True)"
| "merge_compare b (s # src) [] p = merge_compare (spend b 1) src [] (advance (fst s) True p)"
| "merge_compare b [] (t # tgt) p = merge_compare (spend b 1) [] tgt (advance (fst t) True p)"
| "merge_compare b (s # src) (t # tgt) p =
     (if fst s = fst t
        then merge_compare (spend b 1) src tgt (advance (fst s) (snd s \<noteq> snd t) p)
      else if fst s < fst t
        then merge_compare (spend b 1) src (t # tgt) (advance (fst s) True p)
      else merge_compare (spend b 1) (s # src) tgt (advance (fst t) True p))"

text \<open>Modelled from the spec: one table of one run, from its checkpoint (step 2a to 3).\<close>

definition diff_table :: "nat option \<Rightarrow> row list \<Rightarrow> row list \<Rightarrow> vdiff_table_row \<Rightarrow> vdiff_table_row" where
  "diff_table b src tgt t =
     (case merge_compare b (from_checkpoint (lastpk t) src) (from_checkpoint (lastpk t) tgt)
             \<lparr>compared = table_rows_compared t, mismatched = mismatched_rows t,
              checkpoint = lastpk t\<rparr> of
        (p, done) \<Rightarrow>
          t\<lparr>table_state := (if done then Completed else Started),
            table_rows_compared := compared p,
            mismatched_rows := mismatched p,
            lastpk := checkpoint p\<rparr>)"

text \<open>
  Modelled from the spec: the key of a \<open>vdiff_table\<close> row is its run and its table.
\<close>

definition is_table_row :: "nat \<Rightarrow> string \<Rightarrow> vdiff_table_row \<Rightarrow> bool" where
  "is_table_row vid name t \<longleftrightarrow> vdiff_id t = vid \<and> table_name t = name"

text \<open>
  Modelled from the spec: the saved row of a run and table; if absent, the table starts
  at the minimum, with no checkpoint (step 2a).
\<close>

definition table_row :: "nat \<Rightarrow> string \<Rightarrow> vdiff_table_row list \<Rightarrow> vdiff_table_row" where
  "table_row vid name rows =
     (case find (is_table_row vid name) rows of
        Some t \<Rightarrow> t
      | None \<Rightarrow> \<lparr>vdiff_id = vid, table_name = name, table_state = Pending,
                 table_rows_compared = 0, mismatched_rows = 0, lastpk = None\<rparr>)"

text \<open>Modelled from the spec: checkpoint writes are keyed by run and table.\<close>

definition upsert :: "vdiff_table_row \<Rightarrow> vdiff_table_row list \<Rightarrow> vdiff_table_row list" where
  "upsert t rows =
     (if find (is_table_row (vdiff_id t) (table_name t)) rows = None then rows @ [t]
      else map (\<lambda>r. if is_table_row (vdiff_id t) (table_name t) r then t else r) rows)"

text \<open>
  Modelled from the spec: the tables of a run, in the order of its table list. The result
  is the new table \<open>vdiff_table\<close> and the number of rows compared.
\<close>

fun diff_tables ::
  "nat option \<Rightarrow> table_data \<Rightarrow> table_data \<Rightarrow> nat \<Rightarrow> string list \<Rightarrow> vdiff_table_row list
    \<Rightarrow> vdiff_table_row list \<times> nat" where
  "diff_tables b src tgt vid [] rows = (rows, 0)"
| "diff_tables b src tgt vid (name # names) rows =
     (let t = diff_table b (src name) (tgt name) (table_row vid name rows);
          n = table_rows_compared t - table_rows_compared (table_row vid name rows)
      in case diff_tables (spend b n) src tgt vid names (upsert t rows) of
           (rows', m) \<Rightarrow> (rows', n + m))"

text \<open>
  Modelled from the spec: a run is found by its UUID.
\<close>

definition is_run :: "string \<Rightarrow> vdiff_row \<Rightarrow> bool" where
  "is_run uuid v \<longleftrightarrow> vdiff_uuid v = uuid"

text \<open>
  Modelled from the spec: an entry of the audit log for a run.
\<close>

definition log_row :: "string \<Rightarrow> nat \<Rightarrow> vdiff_log_row" where
  "log_row msg vid = \<lparr>log_vdiff_id = vid, message = msg\<rparr>"

text \<open>
  Modelled from the spec: the differ of one run on one shard (section 4.2). It works on a
  run that is pending or started, goes through the tables from their checkpoints, adds
  the rows compared to the run's counter, and completes the run when every table of the
  run is completed (step 4).
\<close>

definition shard_differ :: "nat option \<Rightarrow> table_data \<Rightarrow> table_data \<Rightarrow> string \<Rightarrow> sidecar \<Rightarrow> sidecar" where
  "shard_differ b src tgt uuid db =
     (case find (is_run uuid) (vdiff db) of
        None \<Rightarrow> db
      | Some v \<Rightarrow>
          if state v = Pending \<or> state v = Started then
            (case diff_tables b src tgt (vd_id v) (tables v) (vdiff_table db) of
               (rows, n) \<Rightarrow>
                 db\<lparr>vdiff :=
                      map (\<lambda>w. if vd_id w = vd_id v
                            then w\<lparr>state :=
                                    (if list_all (\<lambda>t. table_state t = Completed)
                                          (filter (\<lambda>t. vdiff_id t = vd_id v) rows)
                                     then Completed else Started),
                                   rows_compared := rows_compared w + n\<rparr>
                            else w) (vdiff db),
                    vdiff_table := rows,
                    vdiff_log := vdiff_log db @ [log_row ''differ'' (vd_id v)]\<rparr>)
          else db)"

subsection \<open>Controller and retry engine on one shard\<close>

text \<open>Modelled from the spec: \<open>create\<close> inserts a pending row under a fresh id.\<close>

definition insert_vdiff :: "string \<Rightarrow> string \<Rightarrow> string \<Rightarrow> string list \<Rightarrow> sidecar \<Rightarrow> sidecar" where
  "insert_vdiff uuid ks wfl tbls db =
     db\<lparr>vdiff := vdiff db @
           [\<lparr>vd_id = next_id db, vdiff_uuid = uuid, keyspace = ks, workflow = wfl,
             state = Pending, last_error = None, tables = tbls, rows_compared = 0\<rparr>],
        vdiff_log := vdiff_log db @ [log_row ''create'' (next_id db)],
        next_id := Suc (next_id db)\<rparr>"

text \<open>
  Modelled from the spec: a transition moves the selected runs and their tables together,
  sets \<open>last_error\<close>, and writes one log entry per run (section 4.3).
\<close>

definition transition ::
  "(vdiff_row \<Rightarrow> bool) \<Rightarrow> vdiff_state \<Rightarrow> (error_class \<times> string) option \<Rightarrow> string
    \<Rightarrow> sidecar \<Rightarrow> sidecar" where
  "transition sel st err msg db =
     db\<lparr>vdiff := map (\<lambda>v. if sel v then v\<lparr>state := st, last_error := err\<rparr> else v) (vdiff db),
        vdiff_table :=
          map (\<lambda>t. if vdiff_id t \<in> set (map vd_id (filter sel (vdiff db)))
                then t\<lparr>table_state := st\<rparr> else t) (vdiff_table db),
        vdiff_log := vdiff_log db @ map (log_row msg) (map vd_id (filter sel (vdiff db)))\<rparr>"

text \<open>Modelled from the spec: \<open>stop\<close> moves the run to stopped and clears \<open>last_error\<close>.\<close>

definition stop :: "string \<Rightarrow> sidecar \<Rightarrow> sidecar" where
  "stop uuid = transition (is_run uuid) Stopped None ''stop''"

text \<open>
  Modelled from the spec: the precondition of \<open>resume\<close> (section 4.1).
\<close>

definition resumable :: "vdiff_row \<Rightarrow> bool" where
  "resumable v \<longleftrightarrow> state v = Stopped \<or> state v = Error \<or> state v = Completed"

text \<open>
  Modelled from the spec: \<open>resume\<close> needs a run that is stopped, in error or completed,
  clears \<open>last_error\<close> and moves the run to started; the checkpoints stay.
\<close>

definition resume :: "string \<Rightarrow> sidecar \<Rightarrow> sidecar" where
  "resume uuid = transition (\<lambda>v. is_run uuid v \<and> resumable v) Started None ''resume''"

text \<open>Modelled from the spec: an error of a stream moves a running differ to error.\<close>

definition stream_error :: "string \<Rightarrow> error_class \<Rightarrow> string \<Rightarrow> sidecar \<Rightarrow> sidecar" where
  "stream_error uuid cls msg =
     transition (\<lambda>v. is_run uuid v \<and> (state v = Pending \<or> state v = Started))
       Error (Some (cls, msg)) ''error''"

text \<open>
  Modelled from the spec: a \<open>last_error\<close> of the ephemeral class.
\<close>

fun is_ephemeral :: "(error_class \<times> string) option \<Rightarrow> bool" where
  "is_ephemeral (Some (Ephemeral, msg)) = True"
| "is_ephemeral _ = False"

text \<open>
  Modelled from the spec: the sweeper of the retry engine moves every run in error with
  an ephemeral \<open>last_error\<close> back to started; the checkpoints stay (section 4.4).
\<close>

definition retry_sweep :: "sidecar \<Rightarrow> sidecar" where
  "retry_sweep =
     transition (\<lambda>v. state v = Error \<and> is_ephemeral (last_error v)) Started None ''retry''"

text \<open>
  Modelled from the spec: deletion removes the selected runs and every \<open>vdiff_table\<close> and
  \<open>vdiff_log\<close> row of theirs.
\<close>

definition purge :: "(vdiff_row \<Rightarrow> bool) \<Rightarrow> sidecar \<Rightarrow> sidecar" where
  "purge sel db =
     db\<lparr>vdiff := filter (\<lambda>v. \<not> sel v) (vdiff db),
        vdiff_table :=
          filter (\<lambda>t. vdiff_id t \<notin> set (map vd_id (filter sel (vdiff db)))) (vdiff_table db),
        vdiff_log :=
          filter (\<lambda>l. log_vdiff_id l \<notin> set (map vd_id (filter sel (vdiff db)))) (vdiff_log db)\<rparr>"

text \<open>
  Modelled from the spec: a workflow is identified by its keyspace and its name.
\<close>

definition is_workflow :: "string \<Rightarrow> string \<Rightarrow> vdiff_row \<Rightarrow> bool" where
  "is_workflow ks wfl v \<longleftrightarrow> keyspace v = ks \<and> workflow v = wfl"

text \<open>Modelled from the spec: \<open>delete\<close> of one run (\<open>Some uuid\<close>) or of all runs of a workflow.\<close>

fun delete :: "string \<Rightarrow> string \<Rightarrow> string option \<Rightarrow> sidecar \<Rightarrow> sidecar" where
  "delete ks wfl (Some uuid) db = purge (\<lambda>v. is_workflow ks wfl v \<and> is_run uuid v) db"
| "delete ks wfl None db = purge (is_workflow ks wfl) db"

text \<open>Modelled from the spec: the sweep run when the parent workflow is completed.\<close>

definition complete_workflow :: "string \<Rightarrow> string \<Rightarrow> sidecar \<Rightarrow> sidecar" where
  "complete_workflow ks wfl db = purge (is_workflow ks wfl) db"

subsection \<open>The target shards of a keyspace\<close>

text \<open>
  Modelled from the spec: the target shards of a keyspace, each with its name and its
  sidecar; a command of the controller runs on every shard, a differ on its own shard.
\<close>

type_synonym cluster = "(string \<times> sidecar) list"

definition init_cluster :: "string list \<Rightarrow> cluster" where
  "init_cluster shards = map (\<lambda>n. (n, empty_sidecar)) shards"

definition on_all :: "(sidecar \<Rightarrow> sidecar) \<Rightarrow> cluster \<Rightarrow> cluster" where
  "on_all f c = map (\<lambda>(n, db). (n, f db)) c"

definition on_shard :: "string \<Rightarrow> (sidecar \<Rightarrow> sidecar) \<Rightarrow> cluster \<Rightarrow> cluster" where
  "on_shard shard f c = map (\<lambda>(n, db). if n = shard then (n, f db) else (n, db)) c"

text \<open>
  Modelled from the spec: the error kinds the controller returns here (section 7).
\<close>

datatype vdiff_error = InvalidArgument string | NotFound

text \<open>
  Modelled from the spec: the row of a run on each shard that has one: one record per
  UUID and shard.
\<close>

definition run_rows :: "string \<Rightarrow> cluster \<Rightarrow> (string \<times> vdiff_row) list" where
  "run_rows uuid c =
     concat (map (\<lambda>(n, db). case find (is_run uuid) (vdiff db) of
                               None \<Rightarrow> [] | Some v \<Rightarrow> [(n, v)]) c)"

text \<open>
  Modelled from the spec: \<open>create\<close> fails when the UUID exists on a shard; otherwise every
  target shard gets a row.
\<close>

definition create ::
  "string \<Rightarrow> string \<Rightarrow> string \<Rightarrow> string list \<Rightarrow> cluster \<Rightarrow> vdiff_error + cluster" where
  "create uuid ks wfl tbls c =
     (if run_rows uuid c \<noteq> [] then Inl (InvalidArgument ''already exists'')
      else Inr (on_all (insert_vdiff uuid ks wfl tbls) c))"

text \<open>Modelled from the spec: the differs of one run on all shards, each on its own streams.\<close>

definition differ_all ::
  "nat option \<Rightarrow> (string \<Rightarrow> table_data) \<Rightarrow> (string \<Rightarrow> table_data) \<Rightarrow> string \<Rightarrow> cluster \<Rightarrow> cluster" where
  "differ_all b src tgt uuid c = map (\<lambda>(n, db). (n, shard_differ b (src n) (tgt n) uuid db)) c"

text \<open>
  Modelled from the spec: the derived state of a run (section 3): completed iff every
  shard is completed; error iff a shard is in error and none is started; started if a
  shard is started; else stopped or pending.
\<close>

definition derived_state :: "vdiff_state list \<Rightarrow> vdiff_state" where
  "derived_state sts =
     (if list_all (\<lambda>st. st = Completed) sts then Completed
      else if Error \<in> set sts \<and> Started \<notin> set sts then Error
      else if Started \<in> set sts then Started
      else if Stopped \<in> set sts then Stopped
      else Pending)"

text \<open>
  Modelled from the spec: the record \<open>show\<close> returns for a run. \<open>Errors\<close> lists the shards
  with a \<open>last_error\<close>; the field is printed only when the list is not empty.
\<close>

record vdiff_info =
  UUID :: string
  State :: vdiff_state
  RowsCompared :: nat
  HasMismatch :: bool
  Errors :: "(string \<times> string) list"
  Shards :: "string list"

text \<open>
  Modelled from the spec: a shard reports a mismatch for a run when a table row of the run
  has mismatched rows.
\<close>

definition shard_has_mismatch :: "cluster \<Rightarrow> string \<times> vdiff_row \<Rightarrow> bool" where
  "shard_has_mismatch c nv =
     list_ex (\<lambda>(n, db). n = fst nv \<and>
        list_ex (\<lambda>t. vdiff_id t = vd_id (snd nv) \<and> 0 < mismatched_rows t) (vdiff_table db)) c"

definition show_run :: "string \<Rightarrow> cluster \<Rightarrow> vdiff_error + vdiff_info" where
  "show_run uuid c =
     (if run_rows uuid c = [] then Inl NotFound
      else Inr \<lparr>UUID = uuid,
                State = derived_state (map (\<lambda>(n, v). state v) (run_rows uuid c)),
                RowsCompared = sum_list (map (\<lambda>(n, v). rows_compared v) (run_rows uuid c)),
                HasMismatch = list_ex (shard_has_mismatch c) (run_rows uuid c),
                Errors = concat (map (\<lambda>(n, v). case last_error v of
                                                  None \<Rightarrow> [] | Some (cls, msg) \<Rightarrow> [(n, msg)])
                                  (run_rows uuid c)),
                Shards = map fst (run_rows uuid c)\<rparr>)"

subsection \<open>Histories\<close>

text \<open>
  Modelled from the spec: the commands of the controller reach every target shard; a
  differ, a stream error and the sweeper act on one shard.
\<close>

datatype action =
    Create string string string "string list"
  | Stop string
  | Resume string
  | Delete string string "string option"
  | CompleteWorkflow string string
  | RunDiffer string string "nat option" table_data table_data
  | StreamError string string error_class string
  | RetrySweep string

text \<open>
  Modelled from the spec: the effect of an action; a failed \<open>create\<close> leaves the state as
  it was. A history is a list of actions.
\<close>

fun apply_action :: "action \<Rightarrow> cluster \<Rightarrow> cluster" where
  "apply_action (Create uuid ks wfl tbls) c =
     (case create uuid ks wfl tbls c of Inl e \<Rightarrow> c | Inr c' \<Rightarrow> c')"
| "apply_action (Stop uuid) c = on_all (stop uuid) c"
| "apply_action (Resume uuid) c = on_all (resume uuid) c"
| "apply_action (Delete ks wfl target) c = on_all (delete ks wfl target) c"
| "apply_action (CompleteWorkflow ks wfl) c = on_all (complete_workflow ks wfl) c"
| "apply_action (RunDiffer shard uuid b src tgt) c = on_shard shard (shard_differ b src tgt uuid) c"
| "apply_action (StreamError shard uuid cls msg) c = on_shard shard (stream_error uuid cls msg) c"
| "apply_action (RetrySweep shard) c = on_shard shard retry_sweep c"

fun run_actions :: "action list \<Rightarrow> cluster \<Rightarrow> cluster" where
  "run_actions [] c = c"
| "run_actions (a # as) c = run_actions as (apply_action a c)"

subsection \<open>Predicates used to state the properties of VDiff\<close>

text \<open>The ids of the runs of a workflow on one shard.\<close>

definition workflow_ids :: "string \<Rightarrow> string \<Rightarrow> sidecar \<Rightarrow> nat list" where
  "workflow_ids ks wfl db = map vd_id (filter (is_workflow ks wfl) (vdiff db))"

text \<open>
  \<open>swept ks wfl db db'\<close>: the sidecar \<open>db'\<close> holds no \<open>vdiff\<close> row of the workflow, and no
  \<open>vdiff_table\<close> or \<open>vdiff_log\<close> row of a run that the workflow had in \<open>db\<close>.
\<close>

definition swept :: "string \<Rightarrow> string \<Rightarrow> sidecar \<Rightarrow> sidecar \<Rightarrow> bool" where
  "swept ks wfl db db' \<longleftrightarrow>
     filter (is_workflow ks wfl) (vdiff db') = [] \<and>
     filter (\<lambda>t. vdiff_id t \<in> set (workflow_ids ks wfl db)) (vdiff_table db') = [] \<and>
     filter (\<lambda>l. log_vdiff_id l \<in> set (workflow_ids ks wfl db)) (vdiff_log db') = []"

text \<open>The orphan invariant of one shard: every child row has a parent \<open>vdiff\<close> row.\<close>

definition no_orphans :: "sidecar \<Rightarrow> bool" where
  "no_orphans db \<longleftrightarrow>
     list_all (\<lambda>t. vdiff_id t \<in> set (map vd_id (vdiff db))) (vdiff_table db) \<and>
     list_all (\<lambda>l. log_vdiff_id l \<in> set (map vd_id (vdiff db))) (vdiff_log db)"

text \<open>
  \<open>caught_up\<close>: the earlier run has compared every row of the table that the two streams
  held: no row lies after the checkpoint.
\<close>

definition caught_up ::
  "table_data \<Rightarrow> table_data \<Rightarrow> nat \<Rightarrow> vdiff_table_row list \<Rightarrow> string \<Rightarrow> bool" where
  "caught_up src tgt vid rows name \<longleftrightarrow>
     from_checkpoint (lastpk (table_row vid name rows)) (src name) = [] \<and>
     from_checkpoint (lastpk (table_row vid name rows)) (tgt name) = []"

text \<open>
  \<open>inserted_after\<close>: every row inserted on the source has a primary key after the
  checkpoint, and the target stream carries the same keys (replication has caught up).
\<close>

definition inserted_after ::
  "table_data \<Rightarrow> table_data \<Rightarrow> nat \<Rightarrow> vdiff_table_row list \<Rightarrow> string \<Rightarrow> bool" where
  "inserted_after ins ins_t vid rows name \<longleftrightarrow>
     from_checkpoint (lastpk (table_row vid name rows)) (ins name) = ins name \<and>
     map fst (ins_t name) = map fst (ins name)"

text \<open>
  \<open>shard_caught_up\<close>: on this shard the run, if it has a row, lists each table once, its
  \<open>vdiff_table\<close> rows are rows of its tables, and each table is caught up and gets its
  inserted rows after the checkpoint.
\<close>

definition shard_caught_up ::
  "string \<Rightarrow> table_data \<Rightarrow> table_data \<Rightarrow> table_data \<Rightarrow> table_data \<Rightarrow> sidecar \<Rightarrow> bool" where
  "shard_caught_up u src tgt ins ins_t db \<longleftrightarrow>
     (case find (is_run u) (vdiff db) of
        None \<Rightarrow> True
      | Some v \<Rightarrow>
          distinct (tables v) \<and>
          list_all (\<lambda>t. table_name t \<in> set (tables v))
            (filter (\<lambda>t. vdiff_id t = vd_id v) (vdiff_table db)) \<and>
          list_all (\<lambda>name. caught_up src tgt (vd_id v) (vdiff_table db) name \<and>
                            inserted_after ins ins_t (vd_id v) (vdiff_table db) name) (tables v))"

text \<open>The number of rows inserted into the tables of the run, over all target shards.\<close>

definition inserted_rows :: "(string \<Rightarrow> table_data) \<Rightarrow> string \<Rightarrow> cluster \<Rightarrow> nat" where
  "inserted_rows ins u c =
     sum_list (map (\<lambda>(n, v). sum_list (map (\<lambda>name. length (ins n name)) (tables v)))
       (run_rows u c))"

text \<open>The streams after the insertion: the inserted rows follow the earlier ones.\<close>

definition with_inserts ::
  "(string \<Rightarrow> table_data) \<Rightarrow> (string \<Rightarrow> table_data) \<Rightarrow> string \<Rightarrow> table_data" where
  "with_inserts data ins n name = data n name @ ins n name"

text \<open>
  The equation of the claim about \<open>RowsCompared\<close>, between what \<open>show\<close> returns before
  and after: both are records, and the later count is the earlier one plus the number of
  inserted rows.
\<close>

fun rows_compared_cumulative ::
  "vdiff_error + vdiff_info \<Rightarrow> nat \<Rightarrow> vdiff_error + vdiff_info \<Rightarrow> bool" where
  "rows_compared_cumulative (Inr before) inserted (Inr after) \<longleftrightarrow>
     RowsCompared after = RowsCompared before + inserted"
| "rows_compared_cumulative _ inserted _ \<longleftrightarrow> False"

subsection \<open>Histories used as concrete inputs\<close>

text \<open>
  Two target shards and the tables \<open>customer\<close> and \<open>Lead\<close>, as in the end-to-end test.
  \<open>customers\<close> is the stream each shard sees (the same on source and target);
  \<open>new_customers\<close> is a row inserted with a primary key above all earlier ones, as the
  test requires of its inserts; \<open>customers_low_insert\<close> is the stream of \<open>customers\<close>
  after a row with a primary key between the earlier ones was inserted.
\<close>

definition customers :: "string \<Rightarrow> table_data" where
  "customers n name =
     (if name = ''customer''
      then (if n = ''-80'' then [(1, [Some ''alice'']), (1001, [None, Some ''soho'', Some []])]
            else [(2, [Some ''bob''])])
      else [])"

definition new_customers :: "string \<Rightarrow> table_data" where
  "new_customers n name =
     (if name = ''customer'' \<and> n = ''-80'' then [(1992234, [Some ''Testy McTester (redux)''])]
      else [])"

definition customers_low_insert :: "string \<Rightarrow> table_data" where
  "customers_low_insert n name =
     (if name = ''customer'' \<and> n = ''-80''
      then [(1, [Some ''alice'']), (500, [Some ''Testy McTester'']),
            (1001, [None, Some ''soho'', Some []])]
      else customers n name)"

text \<open>A run created and compared to the end on both shards.\<close>

definition completed_run :: cluster where
  "completed_run =
     run_actions
       [Create ''u1'' ''customer'' ''p1c2'' [''customer'', ''Lead''],
        RunDiffer ''-80'' ''u1'' None (customers ''-80'') (customers ''-80''),
        RunDiffer ''80-'' ''u1'' None (customers ''80-'') (customers ''80-'')]
       (init_cluster [''-80'', ''80-''])"

text \<open>A run stopped after the differ of shard \<open>-80\<close> compared one of its two rows.\<close>

definition stopped_run :: cluster where
  "stopped_run =
     run_actions
       [Create ''u1'' ''customer'' ''p1c2'' [''customer'', ''Lead''],
        RunDiffer ''-80'' ''u1'' (Some 1) (customers ''-80'') (customers ''-80''),
        Stop ''u1'']
       (init_cluster [''-80'', ''80-''])"

definition deadlock :: string where
  "deadlock = ''(errno 1213) (sqlstate 40001): Deadlock found when trying to get lock''"

text \<open>The completed run, resumed, with a deadlock on both shards before any new row.\<close>

definition errored_run :: cluster where
  "errored_run =
     run_actions
       [Resume ''u1'',
        StreamError ''-80'' ''u1'' Ephemeral deadlock,
        StreamError ''80-'' ''u1'' Ephemeral deadlock]
       completed_run"

section \<open>Properties of the comparison kernel\<close>

text \<open>
  C9. Evaluating a comparison expression whose \<open>Op\<close> is nil returns the zero
  \<open>EvalResult\<close> together with the error of code INTERNAL and message
  "a comparison expression needs a comparison operator"; neither operand is evaluated:
  the state is the one the call started in, whatever the two sub-expressions are.
\<close>

theorem Evaluate_nil_Op:
  "ComparisonExpr_Evaluate compareNumeric makeNumeric \<lparr>Op = None, Left = l, Right = r\<rparr> env s =
     (Return (zeroEvalResult,
        Some (Errorf Code_INTERNAL ''a comparison expression needs a comparison operator'')), s)"
  by (simp add: ComparisonExpr_Evaluate_def)

text \<open>
  C10. Operands are evaluated left to right and an error stops the evaluation. When the
  left sub-expression returns an error, \<open>evaluateComparisonExprs\<close> returns that error with
  two zero results and the state is the one the left sub-expression left behind: the
  right sub-expression, whatever it is, has not run. When the left one succeeds, the right
  one runs in the state the left one produced, and its error is returned the same way;
  \<open>Evaluate\<close> then returns the error with the zero result and no operator is applied.
\<close>

theorem operand_errors_short_circuit:
  "(Left c env s = (Return (lVal, Some err), s1) \<longrightarrow>
      evaluateComparisonExprs c env s = (Return (zeroEvalResult, zeroEvalResult, Some err), s1)
      \<and> (Op c \<noteq> None \<longrightarrow>
          ComparisonExpr_Evaluate compareNumeric makeNumeric c env s
            = (Return (zeroEvalResult, Some err), s1)))
   \<and> (Left c env s = (Return (lVal, None), s1) \<and> Right c env s1 = (Return (rVal, Some err), s2) \<longrightarrow>
      evaluateComparisonExprs c env s = (Return (zeroEvalResult, zeroEvalResult, Some err), s2)
      \<and> (Op c \<noteq> None \<longrightarrow>
          ComparisonExpr_Evaluate compareNumeric makeNumeric c env s
            = (Return (zeroEvalResult, Some err), s2)))"
  by (auto simp add: ComparisonExpr_Evaluate_def evaluateComparisonExprs_def)

text \<open>
  The state counts evaluations: the left operand adds 1, the right operand adds 10. In
  the first expression the left operand fails and the right one would panic; in the
  second the left operand succeeds and the right one fails.
\<close>

theorem operand_errors_short_circuit_witness:
  "evaluateComparisonExprs
      \<lparr>Op = Some EqualOp,
       Left = (\<lambda>env s. (Return (resultTrue, Some (Errorf Code_UNKNOWN ''left failed'')), s + 1)),
       Right = (\<lambda>env s. (Panic ''right was evaluated'', s + 10))\<rparr> () (0::nat)
     = (Return (zeroEvalResult, zeroEvalResult, Some (Errorf Code_UNKNOWN ''left failed'')), 1)
   \<and> ComparisonExpr_Evaluate (\<lambda>l r. Panic ''compared'') (\<lambda>v. v)
      \<lparr>Op = Some EqualOp,
       Left = (\<lambda>env s. (Return (resultTrue, Some (Errorf Code_UNKNOWN ''left failed'')), s + 1)),
       Right = (\<lambda>env s. (Panic ''right was evaluated'', s + 10))\<rparr> () (0::nat)
     = (Return (zeroEvalResult, Some (Errorf Code_UNKNOWN ''left failed'')), 1)
   \<and> ComparisonExpr_Evaluate (\<lambda>l r. Panic ''compared'') (\<lambda>v. v)
      \<lparr>Op = Some EqualOp,
       Left = (\<lambda>env s. (Return (resultTrue, None), s + 1)),
       Right = (\<lambda>env s. (Return (resultTrue, Some (Errorf Code_UNKNOWN ''right failed'')), s + 10))\<rparr>
      () (0::nat)
     = (Return (zeroEvalResult, Some (Errorf Code_UNKNOWN ''right failed'')), 11)"
  using
    operand_errors_short_circuit [of
      "\<lparr>Op = Some EqualOp,
        Left = (\<lambda>env s. (Return (resultTrue, Some (Errorf Code_UNKNOWN ''left failed'')), s + 1)),
        Right = (\<lambda>env s. (Panic ''right was evaluated'', s + 10))\<rparr>"
      "()" "0::nat" resultTrue "Errorf Code_UNKNOWN ''left failed''" 1
      "\<lambda>l r. Panic ''compared''" "\<lambda>v. v"]
    operand_errors_short_circuit [of
      "\<lparr>Op = Some EqualOp,
        Left = (\<lambda>env s. (Return (resultTrue, None), s + 1)),
        Right = (\<lambda>env s. (Return (resultTrue, Some (Errorf Code_UNKNOWN ''right failed'')), s + 10))\<rparr>"
      "()" "0::nat" resultTrue "Errorf Code_UNKNOWN ''right failed''" 1
      "\<lambda>l r. Panic ''compared''" "\<lambda>v. v" resultTrue 11]
  by simp

text \<open>
  C2. For every operator other than \<open><=>\<close>: when both operands evaluate without error
  and at least one of the two results has type NULL, \<open>Evaluate\<close> returns \<open>resultNull\<close>
  (of type \<open>Null\<close>) with no error, in the state the operands left behind. The result does
  not depend on \<open>compareNumeric\<close> or \<open>makeNumeric\<close>, and it is a value also for \<open>in\<close>,
  \<open>like\<close> and \<open>regexp\<close>, whose \<open>Evaluate\<close> panics on every input: the operator is not
  applied.
\<close>

theorem Evaluate_null_operand:
  assumes "Op c = Some op" and "op \<noteq> NullSafeEqualOp"
    and "Left c env s = (Return (lVal, None), s1)"
    and "Right c env s1 = (Return (rVal, None), s2)"
    and "typ' lVal = Null \<or> typ' rVal = Null"
  shows "ComparisonExpr_Evaluate compareNumeric makeNumeric c env s
           = (Return (resultNull, None), s2)
         \<and> typ' resultNull = Null"
  using assms
  by (simp add: ComparisonExpr_Evaluate_def evaluateComparisonExprs_def
      hasNullEvalResult_def resultNull_def)

theorem Evaluate_null_operand_witness:
  "ComparisonExpr_Evaluate (\<lambda>l r. Panic ''compared'') (\<lambda>v. v)
     \<lparr>Op = Some InOp, Left = (\<lambda>env s. (Return (resultNull, None), s + 1)),
      Right = (\<lambda>env s. (Return (resultTrue, None), s + 10))\<rparr> () (0::nat)
   = (Return (resultNull, None), 11)"
  using Evaluate_null_operand [of
      "\<lparr>Op = Some InOp, Left = (\<lambda>env s. (Return (resultNull, None), s + 1)),
        Right = (\<lambda>env s. (Return (resultTrue, None), s + 10))\<rparr>"
      InOp "()" "0::nat" resultNull 1 resultTrue 11 "\<lambda>l r. Panic ''compared''" "\<lambda>v. v"]
  by (simp add: resultNull_def)

text \<open>
  C1. The claim: \<open>NULL <=> NULL\<close> is 1. The code: \<open>Evaluate\<close> lets NULL operands of
  \<open><=>\<close> through to \<open>NullSafeEqualOp.Evaluate\<close>, whose body is \<open>panic("implement me")\<close>.
\<close>

theorem NullSafeEqualOp_null_null_panics:
  "ComparisonExpr_Evaluate compareNumeric makeNumeric
     \<lparr>Op = Some NullSafeEqualOp, Left = literal resultNull, Right = literal resultNull\<rparr> env s
   = (Panic ''implement me'', s)"
  by (simp add: ComparisonExpr_Evaluate_def evaluateComparisonExprs_def literal_def
      NullSafeEqualOp_Evaluate_def)

text \<open>
  Two integral values are never texts: their comparison is the one \<open>compareNumeric\<close>
  makes, so within the integral class the order properties of \<open>executeComparison\<close> are
  those of \<open>compareNumeric\<close>.
\<close>

lemma IsIntegral_not_IsText: "IsIntegral t \<Longrightarrow> \<not> IsText t"
  by (cases t) simp_all

lemma executeComparison_integers:
  "IsIntegral (typ' l) \<Longrightarrow> IsIntegral (typ' r) \<Longrightarrow>
     executeComparison compareNumeric makeNumeric l r = compareNumeric l r"
  by (simp add: executeComparison_def evalResultsAreString_def evalResultsAreInteger_def
      IsIntegral_not_IsText)

text \<open>
  C3. The claim: \<open>cmp(x, x) = 0\<close> for every non-NULL \<open>x\<close>. The code: for the text value
  \<open>'foo'\<close> \<open>executeComparison\<close> takes its first case and panics, whatever
  \<open>compareNumeric\<close> and \<open>makeNumeric\<close> are.
\<close>

theorem executeComparison_reflexive_text_panics:
  "executeComparison compareNumeric makeNumeric
     \<lparr>typ' = Text 45, ival = 0, bytes = ''foo''\<rparr> \<lparr>typ' = Text 45, ival = 0, bytes = ''foo''\<rparr>
   = Panic ''not implemented yet''"
  by (simp add: executeComparison_def evalResultsAreString_def)

text \<open>
  C4. The claim: a decimal and an integer compare as decimals. The code: for the decimal
  \<open>1.5\<close> and the integer \<open>1\<close> \<open>executeComparison\<close> reaches the case
  \<open>needsDecimalHandling\<close> and panics.
\<close>

theorem executeComparison_decimal_panics:
  "executeComparison compareNumeric makeNumeric
     \<lparr>typ' = Decimal, ival = 0, bytes = ''1.5''\<rparr> \<lparr>typ' = Int64, ival = 1, bytes = []\<rparr>
   = Panic ''not implemented yet''"
  by (simp add: executeComparison_def evalResultsAreString_def evalResultsAreInteger_def
      needsFloatHandling_def needsDecimalHandling_def)

text \<open>
  C5. The claim: two texts of one collation compare by the collation's key order. The
  code: for \<open>'foo'\<close> and \<open>'FOO'\<close> of collation 45 the equality operator panics in
  \<open>executeComparison\<close>.
\<close>

theorem EqualOp_text_panics:
  "ComparisonOp_Evaluate EqualOp compareNumeric makeNumeric
     \<lparr>typ' = Text 45, ival = 0, bytes = ''foo''\<rparr> \<lparr>typ' = Text 45, ival = 0, bytes = ''FOO''\<rparr>
   = Panic ''not implemented yet''"
  by (simp add: EqualOp_Evaluate_def EqualOp_IsTrue_def executeComparison_def
      evalResultsAreString_def)

section \<open>Properties of VDiff\<close>

subsection \<open>Stop and show\<close>

lemma find_map_same:
  assumes "\<And>x. P (f x) = P x"
  shows "find P (map f xs) = map_option f (find P xs)"
  using assms by (induction xs) auto

lemma find_Some_holds: "find P xs = Some x \<Longrightarrow> P x"
  by (induction xs) (auto split: if_splits)

lemma find_run_transition:
  "find (is_run u) (vdiff (transition sel st err msg db)) =
     map_option (\<lambda>v. if sel v then v\<lparr>state := st, last_error := err\<rparr> else v)
       (find (is_run u) (vdiff db))"
  by (simp add: transition_def find_map_same is_run_def)

lemma run_rows_on_all_transition:
  "run_rows u (on_all (transition sel st err msg) c) =
     map (\<lambda>(n, v). (n, if sel v then v\<lparr>state := st, last_error := err\<rparr> else v)) (run_rows u c)"
  by (induction c) (auto simp add: run_rows_def on_all_def find_run_transition split: option.splits)

lemma run_rows_iff:
  "(n, v) \<in> set (run_rows u c) \<longleftrightarrow>
     (\<exists>db. (n, db) \<in> set c \<and> find (is_run u) (vdiff db) = Some v)"
  by (induction c) (auto simp add: run_rows_def split: option.splits)

lemma run_rows_is_run: "(n, v) \<in> set (run_rows u c) \<Longrightarrow> is_run u v"
  by (auto simp add: run_rows_iff dest: find_Some_holds)

lemma run_rows_stop:
  "run_rows u (on_all (stop u) c) =
     map (\<lambda>(n, v). (n, v\<lparr>state := Stopped, last_error := None\<rparr>)) (run_rows u c)"
  unfolding stop_def run_rows_on_all_transition
  by (rule map_cong) (auto dest: run_rows_is_run)

lemma derived_state_all_stopped:
  "sts \<noteq> [] \<Longrightarrow> list_all (\<lambda>st. st = Stopped) sts \<Longrightarrow> derived_state sts = Stopped"
  by (cases sts) (auto simp add: derived_state_def list_all_iff)

lemma list_ex_map_same:
  assumes "\<And>x. P (f x) = P x"
  shows "list_ex P (map f xs) = list_ex P xs"
  using assms by (induction xs) auto

lemma mismatch_transition:
  "list_ex (\<lambda>t. vdiff_id t = vid \<and> 0 < mismatched_rows t)
      (vdiff_table (transition sel st err msg db))
   = list_ex (\<lambda>t. vdiff_id t = vid \<and> 0 < mismatched_rows t) (vdiff_table db)"
  by (simp add: transition_def list_ex_map_same)

lemma shard_has_mismatch_transition:
  "shard_has_mismatch (on_all (transition sel st err msg) c) (n, v\<lparr>state := st', last_error := err'\<rparr>)
   = shard_has_mismatch c (n, v)"
  by (induction c) (auto simp add: shard_has_mismatch_def on_all_def mismatch_transition)

lemma has_mismatch_transition:
  "list_ex (shard_has_mismatch (on_all (transition sel st err msg) c))
      (map (\<lambda>(n, v). (n, v\<lparr>state := st', last_error := err'\<rparr>)) rows)
   = list_ex (shard_has_mismatch c) rows"
  by (induction rows) (auto simp add: shard_has_mismatch_transition)

text \<open>
  C8. After an explicit \<open>stop\<close>, \<open>show\<close> reports the run as stopped and without errors:
  whatever \<open>show\<close> returned before, after \<open>stop\<close> it returns the same record with
  \<open>State = Stopped\<close> and an empty \<open>Errors\<close> list (the field is then not printed), on every
  cluster where the run exists. A \<open>last_error\<close> recorded earlier is cleared.
\<close>

theorem stop_show:
  assumes "show_run u c = Inr info"
  shows "show_run u (apply_action (Stop u) c)
           = Inr (info\<lparr>State := Stopped, Errors := []\<rparr>)"
proof -
  let ?rows = "run_rows u c"
  let ?f = "\<lambda>(n, v). (n, v\<lparr>state := Stopped, last_error := None\<rparr>)"
  from assms have ne: "?rows \<noteq> []"
    by (auto simp add: show_run_def split: if_splits)
  have st: "(\<lambda>(n, v). state v) \<circ> ?f = (\<lambda>nv. Stopped)"
    by (auto simp add: fun_eq_iff)
  have ds: "derived_state (map (\<lambda>nv. Stopped) ?rows) = Stopped"
    using ne by (intro derived_state_all_stopped) (auto simp add: list_all_iff)
  have rc: "(\<lambda>(n, v). rows_compared v) \<circ> ?f = (\<lambda>(n, v). rows_compared v)"
    by (auto simp add: fun_eq_iff)
  have er: "(\<lambda>(n, v). case last_error v of None \<Rightarrow> [] | Some (cls, msg) \<Rightarrow> [(n, msg)]) \<circ> ?f
              = (\<lambda>nv. [])"
    by (auto simp add: fun_eq_iff)
  have sh: "fst \<circ> ?f = fst"
    by (auto simp add: fun_eq_iff)
  have hm: "list_ex (shard_has_mismatch (on_all (stop u) c)) (map ?f ?rows)
              = list_ex (shard_has_mismatch c) ?rows"
    by (simp add: stop_def has_mismatch_transition)
  show ?thesis
    using assms ne
    by (auto simp add: show_run_def run_rows_stop st ds rc er sh hm)
qed

theorem stop_show_witness:
  "show_run ''u1'' (apply_action (Stop ''u1'') errored_run)
     = Inr \<lparr>UUID = ''u1'', State = Stopped, RowsCompared = 3, HasMismatch = False,
            Errors = [], Shards = [''-80'', ''80-'']\<rparr>"
proof -
  have "show_run ''u1'' errored_run
      = Inr \<lparr>UUID = ''u1'', State = Error, RowsCompared = 3, HasMismatch = False,
             Errors = [(''-80'', deadlock), (''80-'', deadlock)], Shards = [''-80'', ''80-'']\<rparr>"
    by code_simp
  from stop_show [OF this] show ?thesis by simp
qed

subsection \<open>Orphans and the sweep of a completed workflow\<close>

lemma no_orphans_empty: "no_orphans empty_sidecar"
  by (simp add: no_orphans_def empty_sidecar_def)

lemma no_orphans_insert_vdiff: "no_orphans db \<Longrightarrow> no_orphans (insert_vdiff uuid ks wfl tbls db)"
  by (auto simp add: no_orphans_def insert_vdiff_def log_row_def list_all_iff)

lemma vd_id_transition: "map vd_id (vdiff (transition sel st err msg db)) = map vd_id (vdiff db)"
  by (simp add: transition_def comp_def if_distrib cong: if_cong)

lemma no_orphans_transition: "no_orphans db \<Longrightarrow> no_orphans (transition sel st err msg db)"
  unfolding no_orphans_def vd_id_transition
  by (auto simp add: transition_def list_all_iff log_row_def)

lemma no_orphans_purge: "no_orphans db \<Longrightarrow> no_orphans (purge sel db)"
  unfolding no_orphans_def purge_def list_all_iff
  by simp blast

lemma vdiff_id_diff_table [simp]: "vdiff_id (diff_table b src tgt t) = vdiff_id t"
  by (simp add: diff_table_def split: prod.splits)

lemma table_name_diff_table [simp]: "table_name (diff_table b src tgt t) = table_name t"
  by (simp add: diff_table_def split: prod.splits)

lemma is_table_row_table_row [simp]: "is_table_row vid name (table_row vid name rows)"
  by (auto simp add: table_row_def is_table_row_def split: option.splits dest: find_Some_holds)

lemma vdiff_id_table_row [simp]: "vdiff_id (table_row vid name rows) = vid"
  using is_table_row_table_row [of vid name rows] by (simp add: is_table_row_def)

lemma table_name_table_row [simp]: "table_name (table_row vid name rows) = name"
  using is_table_row_table_row [of vid name rows] by (simp add: is_table_row_def)

lemma vdiff_id_upsert: "set (map vdiff_id (upsert t rows)) \<subseteq> insert (vdiff_id t) (set (map vdiff_id rows))"
  by (auto simp add: upsert_def)

lemma vdiff_id_diff_tables:
  "set (map vdiff_id (fst (diff_tables b src tgt vid names rows)))
     \<subseteq> insert vid (set (map vdiff_id rows))"
proof (induction names arbitrary: b rows)
  case Nil
  then show ?case by auto
next
  case (Cons name names)
  let ?t = "diff_table b (src name) (tgt name) (table_row vid name rows)"
  let ?n = "table_rows_compared ?t - table_rows_compared (table_row vid name rows)"
  have "set (map vdiff_id (fst (diff_tables (spend b ?n) src tgt vid names (upsert ?t rows))))
          \<subseteq> insert vid (set (map vdiff_id (upsert ?t rows)))"
    by (rule Cons.IH)
  also have "\<dots> \<subseteq> insert vid (set (map vdiff_id rows))"
    using vdiff_id_upsert [of ?t rows] by auto
  finally show ?case
    by (simp add: Let_def case_prod_unfold)
qed

lemma no_orphans_shard_differ: "no_orphans db \<Longrightarrow> no_orphans (shard_differ b src tgt u db)"
proof -
  assume inv: "no_orphans db"
  show ?thesis
  proof (cases "find (is_run u) (vdiff db)")
    case None
    then show ?thesis using inv by (simp add: shard_differ_def)
  next
    case (Some v)
    then have v: "v \<in> set (vdiff db)"
      by (auto simp add: find_Some_iff)
    have ids: "map vd_id (map (\<lambda>w. if vd_id w = vd_id v then w\<lparr>state := st, rows_compared := rows_compared w + n\<rparr> else w) (vdiff db))
       = map vd_id (vdiff db)" for st n
      by (simp add: comp_def if_distrib cong: if_cong)
    show ?thesis
    proof (cases "state v = Pending \<or> state v = Started")
      case False
      with Some inv show ?thesis by (simp add: shard_differ_def)
    next
      case True
      obtain rows n where d: "diff_tables b src tgt (vd_id v) (tables v) (vdiff_table db) = (rows, n)"
        by (cases "diff_tables b src tgt (vd_id v) (tables v) (vdiff_table db)")
      have "set (map vdiff_id rows) \<subseteq> insert (vd_id v) (set (map vdiff_id (vdiff_table db)))"
        using vdiff_id_diff_tables [of b src tgt "vd_id v" "tables v" "vdiff_table db"] d by simp
      then have "set (map vdiff_id rows) \<subseteq> set (map vd_id (vdiff db))"
        using inv v by (auto simp add: no_orphans_def list_all_iff)
      then show ?thesis
        using Some True d inv v
        unfolding no_orphans_def shard_differ_def
        by (auto simp add: ids list_all_iff log_row_def simp del: map_map)
    qed
  qed
qed

lemma no_orphans_on_all:
  assumes "\<And>db. no_orphans db \<Longrightarrow> no_orphans (f db)"
  shows "list_all (\<lambda>(n, db). no_orphans db) c \<Longrightarrow> list_all (\<lambda>(n, db). no_orphans db) (on_all f c)"
  using assms by (auto simp add: on_all_def list_all_iff)

lemma no_orphans_on_shard:
  assumes "\<And>db. no_orphans db \<Longrightarrow> no_orphans (f db)"
  shows "list_all (\<lambda>(n, db). no_orphans db) c \<Longrightarrow> list_all (\<lambda>(n, db). no_orphans db) (on_shard s f c)"
  using assms by (auto simp add: on_shard_def list_all_iff split: if_splits)

lemma no_orphans_delete: "no_orphans db \<Longrightarrow> no_orphans (delete ks wfl target db)"
  by (cases target) (simp_all add: no_orphans_purge)

lemma no_orphans_apply_action:
  "list_all (\<lambda>(n, db). no_orphans db) c \<Longrightarrow> list_all (\<lambda>(n, db). no_orphans db) (apply_action a c)"
proof (cases a)
  case (Create uuid ks wfl tbls)
  then show "list_all (\<lambda>(n, db). no_orphans db) c \<Longrightarrow> ?thesis"
    using no_orphans_on_all [of "insert_vdiff uuid ks wfl tbls" c]
    by (simp add: create_def no_orphans_insert_vdiff)
qed (simp_all add: no_orphans_on_all no_orphans_on_shard stop_def resume_def stream_error_def
      retry_sweep_def complete_workflow_def no_orphans_transition no_orphans_purge
      no_orphans_delete no_orphans_shard_differ)

lemma no_orphans_run_actions:
  "list_all (\<lambda>(n, db). no_orphans db) c \<Longrightarrow> list_all (\<lambda>(n, db). no_orphans db) (run_actions acts c)"
  by (induction acts arbitrary: c) (simp_all add: no_orphans_apply_action)

lemma no_orphans_init: "list_all (\<lambda>(n, db). no_orphans db) (init_cluster shards)"
  by (simp add: init_cluster_def list_all_iff no_orphans_empty)

lemma swept_complete_workflow: "swept ks wfl db (complete_workflow ks wfl db)"
  by (auto simp add: swept_def complete_workflow_def purge_def workflow_ids_def filter_empty_conv)

text \<open>
  C7. For every history of commands, differ steps, stream errors and retries from the
  empty sidecars: no \<open>vdiff_table\<close> or \<open>vdiff_log\<close> row is without a parent \<open>vdiff\<close>
  row on any shard; and completing the parent workflow leaves, on every shard, no
  \<open>vdiff\<close> row of the workflow and no \<open>vdiff_table\<close> or \<open>vdiff_log\<close> row of a run the
  workflow had.
\<close>

theorem sweep_and_orphans:
  "list_all (\<lambda>(n, db). no_orphans db) (run_actions acts (init_cluster shards))
   \<and> list_all2 (\<lambda>(n, db) (n', db'). n' = n \<and> swept ks wfl db db')
        (run_actions acts (init_cluster shards))
        (apply_action (CompleteWorkflow ks wfl) (run_actions acts (init_cluster shards)))"
proof
  show "list_all (\<lambda>(n, db). no_orphans db) (run_actions acts (init_cluster shards))"
    by (simp add: no_orphans_run_actions no_orphans_init)
  show "list_all2 (\<lambda>(n, db) (n', db'). n' = n \<and> swept ks wfl db db')
        (run_actions acts (init_cluster shards))
        (apply_action (CompleteWorkflow ks wfl) (run_actions acts (init_cluster shards)))"
    by (simp add: on_all_def list_all2_map2 swept_complete_workflow list_all2_same
        case_prod_unfold)
qed

theorem sweep_and_orphans_witness:
  "list_all (\<lambda>(n, db). no_orphans db) completed_run
   \<and> list_all2 (\<lambda>(n, db) (n', db'). n' = n \<and> swept ''customer'' ''p1c2'' db db')
        completed_run (apply_action (CompleteWorkflow ''customer'' ''p1c2'') completed_run)
   \<and> map (\<lambda>(n, db). (length (vdiff db), length (vdiff_table db), length (vdiff_log db)))
        completed_run = [(1, 2, 2), (1, 2, 2)]
   \<and> map (\<lambda>(n, db). (length (vdiff db), length (vdiff_table db), length (vdiff_log db)))
        (apply_action (CompleteWorkflow ''customer'' ''p1c2'') completed_run)
      = [(0, 0, 0), (0, 0, 0)]"
proof -
  have "map (\<lambda>(n, db). (length (vdiff db), length (vdiff_table db), length (vdiff_log db)))
        completed_run = [(1, 2, 2), (1, 2, 2)]"
    by code_simp
  moreover have "map (\<lambda>(n, db). (length (vdiff db), length (vdiff_table db), length (vdiff_log db)))
        (apply_action (CompleteWorkflow ''customer'' ''p1c2'') completed_run)
      = [(0, 0, 0), (0, 0, 0)]"
    by code_simp
  ultimately show ?thesis
    using sweep_and_orphans [of
        "[Create ''u1'' ''customer'' ''p1c2'' [''customer'', ''Lead''],
          RunDiffer ''-80'' ''u1'' None (customers ''-80'') (customers ''-80''),
          RunDiffer ''80-'' ''u1'' None (customers ''80-'') (customers ''80-'')]"
        "[''-80'', ''80-'']" "''customer''" "''p1c2''"]
    by (simp add: completed_run_def)
qed

subsection \<open>Rows compared after a resume or a retry\<close>

lemma merge_compare_same_keys:
  "map fst src = map fst tgt \<Longrightarrow>
     compared (fst (merge_compare None src tgt p)) = compared p + length src"
proof (induction src arbitrary: tgt p)
  case Nil
  then show ?case by simp
next
  case (Cons s src)
  then obtain t tgt' where "tgt = t # tgt'" "fst s = fst t" "map fst src = map fst tgt'"
    by (cases tgt) auto
  with Cons.IH [of tgt'] show ?case
    by (simp add: advance_def)
qed

lemma from_checkpoint_append:
  "from_checkpoint ck (xs @ ys) = from_checkpoint ck xs @ from_checkpoint ck ys"
  by (cases ck) simp_all

lemma diff_table_count:
  assumes "map fst (from_checkpoint (lastpk t) src) = map fst (from_checkpoint (lastpk t) tgt)"
  shows "table_rows_compared (diff_table None src tgt t)
           = table_rows_compared t + length (from_checkpoint (lastpk t) src)"
  using merge_compare_same_keys [OF assms,
      of "\<lparr>compared = table_rows_compared t, mismatched = mismatched_rows t, checkpoint = lastpk t\<rparr>"]
  by (simp add: diff_table_def case_prod_unfold)

lemma find_upsert_other:
  "\<not> is_table_row vid name t \<Longrightarrow>
     find (is_table_row vid name) (upsert t rows) = find (is_table_row vid name) rows"
proof -
  assume other: "\<not> is_table_row vid name t"
  have a: "find (is_table_row vid name) (rows @ [t]) = find (is_table_row vid name) rows"
    using other by (induction rows) auto
  have b: "find (is_table_row vid name) (map (\<lambda>r. if is_table_row vid' name' r then t else r) rows)
             = find (is_table_row vid name) rows"
    if "is_table_row vid' name' t" for vid' name'
    using other that by (induction rows) (auto simp add: is_table_row_def)
  show ?thesis
    unfolding upsert_def using a b [of "vdiff_id t" "table_name t"]
    by (simp add: is_table_row_def)
qed

lemma table_row_upsert_other:
  "\<not> is_table_row vid name t \<Longrightarrow> table_row vid name (upsert t rows) = table_row vid name rows"
  by (simp add: table_row_def find_upsert_other)

lemma diff_tables_count:
  assumes "distinct names"
    and "\<And>name. name \<in> set names \<Longrightarrow>
           map fst (from_checkpoint (lastpk (table_row vid name rows)) (src name))
             = map fst (from_checkpoint (lastpk (table_row vid name rows)) (tgt name))"
  shows "snd (diff_tables None src tgt vid names rows)
           = (\<Sum>name\<leftarrow>names. length (from_checkpoint (lastpk (table_row vid name rows)) (src name)))"
  using assms
proof (induction names arbitrary: rows)
  case Nil
  then show ?case by simp
next
  case (Cons name names)
  let ?t = "diff_table None (src name) (tgt name) (table_row vid name rows)"
  have other: "table_row vid name' (upsert ?t rows) = table_row vid name' rows"
    if "name' \<in> set names" for name'
    using that Cons.prems(1) by (intro table_row_upsert_other) (auto simp add: is_table_row_def)
  have "snd (diff_tables None src tgt vid names (upsert ?t rows))
          = (\<Sum>name'\<leftarrow>names. length (from_checkpoint (lastpk (table_row vid name' (upsert ?t rows))) (src name')))"
    using Cons.prems by (intro Cons.IH) (auto simp add: other)
  also have "\<dots> = (\<Sum>name'\<leftarrow>names. length (from_checkpoint (lastpk (table_row vid name' rows)) (src name')))"
    by (intro arg_cong [where f = sum_list] map_cong) (auto simp add: other)
  finally show ?case
    using diff_table_count [of "table_row vid name rows" "src name" "tgt name"] Cons.prems(2) [of name]
    by (simp add: Let_def case_prod_unfold)
qed

lemma from_checkpoint_same_keys:
  assumes "map fst ys = map fst xs" and "from_checkpoint ck xs = xs"
  shows "from_checkpoint ck ys = ys"
proof (cases ck)
  case None
  then show ?thesis by simp
next
  case (Some pk)
  with assms(2) have "\<forall>k \<in> set (map fst xs). pk < k"
    by (auto simp add: filter_id_conv)
  with assms(1) have "\<forall>r \<in> set ys. pk < fst r"
    by (metis image_eqI list.set_map)
  with Some show ?thesis
    by (simp add: filter_id_conv)
qed

lemma merge_compare_None_done: "b = None \<Longrightarrow> snd (merge_compare b src tgt p)"
  by (induction b src tgt p rule: merge_compare.induct) auto

lemma table_state_diff_table_None [simp]: "table_state (diff_table None src tgt t) = Completed"
  using merge_compare_None_done [of None]
  by (simp add: diff_table_def case_prod_unfold)

lemma set_upsert:
  "t' \<in> set (upsert t rows) \<Longrightarrow>
     t' = t \<or> (t' \<in> set rows \<and> \<not> is_table_row (vdiff_id t) (table_name t) t')"
  by (auto simp add: upsert_def find_None_iff split: if_splits)

lemma diff_tables_None_rows:
  "t' \<in> set (fst (diff_tables None src tgt vid names rows)) \<Longrightarrow>
     (vdiff_id t' = vid \<and> table_name t' \<in> set names \<and> table_state t' = Completed) \<or>
     (t' \<in> set rows \<and> \<not> (vdiff_id t' = vid \<and> table_name t' \<in> set names))"
proof (induction names arbitrary: rows)
  case Nil
  then show ?case by simp
next
  case (Cons name names)
  let ?t = "diff_table None (src name) (tgt name) (table_row vid name rows)"
  from Cons.prems have "t' \<in> set (fst (diff_tables None src tgt vid names (upsert ?t rows)))"
    by (simp add: Let_def case_prod_unfold)
  from Cons.IH [OF this] show ?case
  proof
    assume "vdiff_id t' = vid \<and> table_name t' \<in> set names \<and> table_state t' = Completed"
    then show ?thesis by simp
  next
    assume a: "t' \<in> set (upsert ?t rows) \<and> \<not> (vdiff_id t' = vid \<and> table_name t' \<in> set names)"
    with set_upsert [of t' ?t rows] show ?thesis
      by (auto simp add: is_table_row_def)
  qed
qed

lemma find_run_shard_differ:
  assumes "find (is_run u) (vdiff db) = Some v" and "state v = Pending \<or> state v = Started"
  shows "find (is_run u) (vdiff (shard_differ b src tgt u db))
           = Some (v\<lparr>state :=
                       (if list_all (\<lambda>t. table_state t = Completed)
                             (filter (\<lambda>t. vdiff_id t = vd_id v)
                               (fst (diff_tables b src tgt (vd_id v) (tables v) (vdiff_table db))))
                        then Completed else Started),
                     rows_compared := rows_compared v
                        + snd (diff_tables b src tgt (vd_id v) (tables v) (vdiff_table db))\<rparr>)"
  using assms
  by (simp add: shard_differ_def case_prod_unfold find_map_same is_run_def)

lemma find_run_shard_differ_None:
  "find (is_run u) (vdiff db) = None \<Longrightarrow> shard_differ b src tgt u db = db"
  by (simp add: shard_differ_def)

lemma lastpk_table_row_transition:
  "lastpk (table_row vid name (vdiff_table (transition sel st err msg db)))
     = lastpk (table_row vid name (vdiff_table db))"
  by (simp add: table_row_def transition_def find_map_same is_table_row_def
      split: option.splits)

lemma table_names_transition:
  "t' \<in> set (vdiff_table (transition sel st err msg db)) \<Longrightarrow>
     \<exists>t \<in> set (vdiff_table db). vdiff_id t = vdiff_id t' \<and> table_name t = table_name t'"
  by (auto simp add: transition_def split: if_splits)

lemma shard_restart:
  assumes found: "find (is_run u) (vdiff db) = Some v"
    and ready: "shard_caught_up u src tgt ins ins_t db"
    and running: "sel v \<or> state v = Pending \<or> state v = Started"
  shows "\<exists>v'. find (is_run u)
             (vdiff (shard_differ None (\<lambda>name. src name @ ins name) (\<lambda>name. tgt name @ ins_t name) u
                      (transition sel Started None msg db))) = Some v'
           \<and> state v' = Completed
           \<and> rows_compared v' = rows_compared v + (\<Sum>name\<leftarrow>tables v. length (ins name))"
proof -
  let ?db1 = "transition sel Started None msg db"
  let ?v1 = "if sel v then v\<lparr>state := Started, last_error := None\<rparr> else v"
  let ?src = "\<lambda>name. src name @ ins name" and ?tgt = "\<lambda>name. tgt name @ ins_t name"
  have f1: "find (is_run u) (vdiff ?db1) = Some ?v1"
    using found by (simp add: find_run_transition)
  have st: "state ?v1 = Pending \<or> state ?v1 = Started"
    using running by auto
  have id1: "vd_id ?v1 = vd_id v" and tb1: "tables ?v1 = tables v"
    and rc1: "rows_compared ?v1 = rows_compared v"
    by simp_all
  have dist: "distinct (tables v)"
    and own: "\<And>t. t \<in> set (vdiff_table db) \<Longrightarrow> vdiff_id t = vd_id v \<Longrightarrow>
                table_name t \<in> set (tables v)"
    and tabs: "\<And>name. name \<in> set (tables v) \<Longrightarrow>
                caught_up src tgt (vd_id v) (vdiff_table db) name \<and>
                inserted_after ins ins_t (vd_id v) (vdiff_table db) name"
    using ready found by (auto simp add: shard_caught_up_def list_all_iff)
  have src_new: "from_checkpoint (lastpk (table_row (vd_id v) name (vdiff_table ?db1))) (?src name)
                   = ins name"
    and tgt_new: "from_checkpoint (lastpk (table_row (vd_id v) name (vdiff_table ?db1))) (?tgt name)
                   = ins_t name"
    and keys: "map fst (ins_t name) = map fst (ins name)"
    if "name \<in> set (tables v)" for name
    using tabs [OF that]
      from_checkpoint_same_keys [of "ins_t name" "ins name"
        "lastpk (table_row (vd_id v) name (vdiff_table db))"]
    by (auto simp add: caught_up_def inserted_after_def from_checkpoint_append
        lastpk_table_row_transition)
  let ?d = "diff_tables None ?src ?tgt (vd_id v) (tables v) (vdiff_table ?db1)"
  have "snd ?d
          = (\<Sum>name\<leftarrow>tables v.
               length (from_checkpoint (lastpk (table_row (vd_id v) name (vdiff_table ?db1))) (?src name)))"
    using dist by (intro diff_tables_count) (simp_all add: src_new tgt_new keys)
  also have "\<dots> = (\<Sum>name\<leftarrow>tables v. length (ins name))"
    by (intro arg_cong [where f = sum_list] map_cong) (simp_all add: src_new)
  finally have n: "snd ?d = (\<Sum>name\<leftarrow>tables v. length (ins name))" .
  have fin: "list_all (\<lambda>t. table_state t = Completed) (filter (\<lambda>t. vdiff_id t = vd_id v) (fst ?d))"
  proof -
    have "table_state t' = Completed" if "t' \<in> set (fst ?d)" and "vdiff_id t' = vd_id v" for t'
      using diff_tables_None_rows [OF that(1)]
    proof
      assume "vdiff_id t' = vd_id v \<and> table_name t' \<in> set (tables v) \<and> table_state t' = Completed"
      then show ?thesis by simp
    next
      assume b: "t' \<in> set (vdiff_table ?db1) \<and> \<not> (vdiff_id t' = vd_id v \<and> table_name t' \<in> set (tables v))"
      then obtain t where "t \<in> set (vdiff_table db)" "vdiff_id t = vdiff_id t'"
          "table_name t = table_name t'"
        using table_names_transition by blast
      with own [of t] that(2) b show ?thesis by auto
    qed
    then show ?thesis by (simp add: list_all_iff)
  qed
  have "find (is_run u) (vdiff (shard_differ None ?src ?tgt u ?db1))
          = Some (?v1\<lparr>state := Completed,
                      rows_compared := rows_compared v + (\<Sum>name\<leftarrow>tables v. length (ins name))\<rparr>)"
    unfolding find_run_shard_differ [OF f1 st, of None ?src ?tgt] id1 tb1 rc1 n
    using fin by simp
  then show ?thesis by simp
qed

lemma with_inserts_shard: "with_inserts data ins n = (\<lambda>name. data n name @ ins n name)"
  by (simp add: with_inserts_def fun_eq_iff)

lemma run_rows_Cons:
  "run_rows u ((n, db) # c) =
     (case find (is_run u) (vdiff db) of None \<Rightarrow> [] | Some v \<Rightarrow> [(n, v)]) @ run_rows u c"
  by (simp add: run_rows_def)

lemma cluster_restart:
  assumes "list_all (\<lambda>(n, db). shard_caught_up u (src n) (tgt n) (ins n) (ins_t n) db) c"
    and "list_all (\<lambda>(n, v). sel v \<or> state v = Pending \<or> state v = Started) (run_rows u c)"
  shows "map (\<lambda>(n, v). (n, state v, rows_compared v))
           (run_rows u (differ_all None (with_inserts src ins) (with_inserts tgt ins_t) u
              (on_all (transition sel Started None msg) c)))
         = map (\<lambda>(n, v). (n, Completed,
                  rows_compared v + (\<Sum>name\<leftarrow>tables v. length (ins n name))))
             (run_rows u c)"
  using assms
proof (induction c)
  case Nil
  then show ?case by (simp add: run_rows_def differ_all_def on_all_def)
next
  case (Cons x c)
  obtain n db where x: "x = (n, db)" by (cases x)
  let ?db' = "shard_differ None (with_inserts src ins n) (with_inserts tgt ins_t n) u
                (transition sel Started None msg db)"
  have tail: "map (\<lambda>(n, v). (n, state v, rows_compared v))
           (run_rows u (differ_all None (with_inserts src ins) (with_inserts tgt ins_t) u
              (on_all (transition sel Started None msg) c)))
         = map (\<lambda>(n, v). (n, Completed,
                  rows_compared v + (\<Sum>name\<leftarrow>tables v. length (ins n name))))
             (run_rows u c)"
    using Cons.prems x by (intro Cons.IH) (simp_all add: run_rows_Cons)
  have head: "map (\<lambda>(n, v). (n, state v, rows_compared v))
                (case find (is_run u) (vdiff ?db') of None \<Rightarrow> [] | Some v \<Rightarrow> [(n, v)])
         = map (\<lambda>(n, v). (n, Completed,
                  rows_compared v + (\<Sum>name\<leftarrow>tables v. length (ins n name))))
             (case find (is_run u) (vdiff db) of None \<Rightarrow> [] | Some v \<Rightarrow> [(n, v)])"
  proof (cases "find (is_run u) (vdiff db)")
    case None
    then have "find (is_run u) (vdiff (transition sel Started None msg db)) = None"
      by (simp add: find_run_transition)
    then have "find (is_run u) (vdiff ?db') = None"
      by (simp add: find_run_shard_differ_None)
    with None show ?thesis by simp
  next
    case (Some v)
    have "shard_caught_up u (src n) (tgt n) (ins n) (ins_t n) db"
      using Cons.prems(1) x by simp
    moreover have "sel v \<or> state v = Pending \<or> state v = Started"
      using Cons.prems(2) x Some by (simp add: run_rows_Cons)
    ultimately have "\<exists>v'. find (is_run u) (vdiff ?db') = Some v' \<and> state v' = Completed
        \<and> rows_compared v' = rows_compared v + (\<Sum>name\<leftarrow>tables v. length (ins n name))"
      unfolding with_inserts_shard
      by (rule shard_restart [OF Some, of "src n" "tgt n" "ins n" "ins_t n" sel msg])
    then obtain v' where "find (is_run u) (vdiff ?db') = Some v'"
        "state v' = Completed"
        "rows_compared v' = rows_compared v + (\<Sum>name\<leftarrow>tables v. length (ins n name))"
      by (elim exE conjE)
    with Some show ?thesis by simp
  qed
  show ?case
    unfolding x
    using head tail
    by (simp add: differ_all_def on_all_def run_rows_Cons)
qed

lemma show_run_restart:
  assumes ready: "list_all (\<lambda>(n, db). shard_caught_up u (src n) (tgt n) (ins n) (ins_t n) db) c"
    and running: "list_all (\<lambda>(n, v). sel v \<or> state v = Pending \<or> state v = Started) (run_rows u c)"
    and before: "show_run u c = Inr before"
  shows "\<exists>after. show_run u (differ_all None (with_inserts src ins) (with_inserts tgt ins_t) u
                     (on_all (transition sel Started None msg) c)) = Inr after
           \<and> State after = Completed
           \<and> RowsCompared after = RowsCompared before + inserted_rows ins u c"
proof -
  let ?c' = "differ_all None (with_inserts src ins) (with_inserts tgt ins_t) u
               (on_all (transition sel Started None msg) c)"
  let ?g = "\<lambda>(n, v). (n, Completed, rows_compared v + (\<Sum>name\<leftarrow>tables v. length (ins n name)))"
  have m: "map (\<lambda>(n, v). (n, state v, rows_compared v)) (run_rows u ?c') = map ?g (run_rows u c)"
    by (rule cluster_restart [OF ready running])
  from before have ne: "run_rows u c \<noteq> []"
    and rc: "RowsCompared before = (\<Sum>(n, v)\<leftarrow>run_rows u c. rows_compared v)"
    by (auto simp add: show_run_def split: if_splits)
  from m have "length (run_rows u ?c') = length (run_rows u c)"
    by (rule map_eq_imp_length_eq)
  with ne have ne': "run_rows u ?c' \<noteq> []" by auto
  have "map (\<lambda>(n, v). state v) (run_rows u ?c')
          = map (fst \<circ> snd) (map (\<lambda>(n, v). (n, state v, rows_compared v)) (run_rows u ?c'))"
    by (simp add: comp_def case_prod_unfold)
  also have "\<dots> = map (\<lambda>nv. Completed) (run_rows u c)"
    unfolding m by (simp add: comp_def case_prod_unfold)
  finally have st: "derived_state (map (\<lambda>(n, v). state v) (run_rows u ?c')) = Completed"
    by (simp add: derived_state_def list_all_iff)
  have "map (\<lambda>(n, v). rows_compared v) (run_rows u ?c')
          = map (snd \<circ> snd) (map (\<lambda>(n, v). (n, state v, rows_compared v)) (run_rows u ?c'))"
    by (simp add: comp_def case_prod_unfold)
  also have "\<dots> = map (\<lambda>(n, v). rows_compared v + (\<Sum>name\<leftarrow>tables v. length (ins n name))) (run_rows u c)"
    unfolding m by (simp add: comp_def case_prod_unfold)
  finally have "(\<Sum>(n, v)\<leftarrow>run_rows u ?c'. rows_compared v)
      = (\<Sum>(n, v)\<leftarrow>run_rows u c. rows_compared v + (\<Sum>name\<leftarrow>tables v. length (ins n name)))"
    by simp
  also have "\<dots> = RowsCompared before + inserted_rows ins u c"
    unfolding rc inserted_rows_def
    by (simp add: case_prod_unfold sum_list_addf)
  finally have sum: "(\<Sum>(n, v)\<leftarrow>run_rows u ?c'. rows_compared v)
                       = RowsCompared before + inserted_rows ins u c" .
  show ?thesis
    using ne' st sum by (simp add: show_run_def)
qed

text \<open>
  C6, as amended. Let the run have compared on every shard every row its tables held
  (no row after a checkpoint), and let rows be inserted whose primary keys lie after the
  checkpoints, on the source and, with the same keys, on the target. Then after \<open>resume\<close>
  and an uninterrupted differ on every shard the run is completed and \<open>RowsCompared\<close> is
  the earlier value plus the number of inserted rows. The same holds after the sweep of the
  retry engine when every shard of the run is in error with an ephemeral \<open>last_error\<close>.
\<close>

theorem rows_compared_after_restart:
  assumes "list_all (\<lambda>(n, db). shard_caught_up u (src n) (tgt n) (ins n) (ins_t n) db) c"
    and "show_run u c = Inr before"
  shows "(\<exists>after. show_run u (differ_all None (with_inserts src ins) (with_inserts tgt ins_t) u
                      (apply_action (Resume u) c)) = Inr after
            \<and> State after = Completed
            \<and> RowsCompared after = RowsCompared before + inserted_rows ins u c)
       \<and> (list_all (\<lambda>(n, v). state v = Error \<and> is_ephemeral (last_error v)) (run_rows u c) \<longrightarrow>
           (\<exists>after. show_run u (differ_all None (with_inserts src ins) (with_inserts tgt ins_t) u
                      (on_all retry_sweep c)) = Inr after
            \<and> State after = Completed
            \<and> RowsCompared after = RowsCompared before + inserted_rows ins u c))"
proof (intro conjI impI)
  have "list_all (\<lambda>(n, v). (is_run u v \<and> resumable v) \<or> state v = Pending \<or> state v = Started)
          (run_rows u c)"
  proof -
    have "(is_run u v \<and> resumable v) \<or> state v = Pending \<or> state v = Started"
      if "(n, v) \<in> set (run_rows u c)" for n v
      using run_rows_is_run [OF that] by (cases "state v") (simp_all add: resumable_def)
    then show ?thesis by (auto simp add: list_all_iff)
  qed
  from show_run_restart [OF assms(1) this assms(2)]
  show "\<exists>after. show_run u (differ_all None (with_inserts src ins) (with_inserts tgt ins_t) u
                      (apply_action (Resume u) c)) = Inr after
            \<and> State after = Completed
            \<and> RowsCompared after = RowsCompared before + inserted_rows ins u c"
    by (simp add: resume_def)
next
  assume "list_all (\<lambda>(n, v). state v = Error \<and> is_ephemeral (last_error v)) (run_rows u c)"
  then have "list_all (\<lambda>(n, v). (state v = Error \<and> is_ephemeral (last_error v))
                \<or> state v = Pending \<or> state v = Started) (run_rows u c)"
    by (auto simp add: list_all_iff)
  from show_run_restart [OF assms(1) this assms(2)]
  show "\<exists>after. show_run u (differ_all None (with_inserts src ins) (with_inserts tgt ins_t) u
                      (on_all retry_sweep c)) = Inr after
            \<and> State after = Completed
            \<and> RowsCompared after = RowsCompared before + inserted_rows ins u c"
    by (simp add: retry_sweep_def)
qed

text \<open>
  The completed run of the two shards has compared 3 rows; one row is inserted above the
  checkpoint of shard \<open>-80\<close>; after \<open>resume\<close>, and after a deadlock and the retry, the
  count is \<open>3 + 1\<close>.
\<close>

theorem rows_compared_after_restart_witness:
  "(\<exists>after. show_run ''u1''
        (differ_all None (with_inserts customers new_customers)
           (with_inserts customers new_customers) ''u1''
           (apply_action (Resume ''u1'') completed_run)) = Inr after
      \<and> State after = Completed \<and> RowsCompared after = 3 + 1)
   \<and> (\<exists>after. show_run ''u1''
        (differ_all None (with_inserts customers new_customers)
           (with_inserts customers new_customers) ''u1''
           (on_all retry_sweep errored_run)) = Inr after
      \<and> State after = Completed \<and> RowsCompared after = 3 + 1)"
proof -
  have ready: "list_all (\<lambda>(n, db). shard_caught_up ''u1'' (customers n) (customers n)
                  (new_customers n) (new_customers n) db) completed_run"
    by code_simp
  have before: "show_run ''u1'' completed_run
      = Inr \<lparr>UUID = ''u1'', State = Completed, RowsCompared = 3, HasMismatch = False,
             Errors = [], Shards = [''-80'', ''80-'']\<rparr>"
    by code_simp
  have ins: "inserted_rows new_customers ''u1'' completed_run = 1"
    by code_simp
  have ready': "list_all (\<lambda>(n, db). shard_caught_up ''u1'' (customers n) (customers n)
                  (new_customers n) (new_customers n) db) errored_run"
    by code_simp
  have before': "show_run ''u1'' errored_run
      = Inr \<lparr>UUID = ''u1'', State = Error, RowsCompared = 3, HasMismatch = False,
             Errors = [(''-80'', deadlock), (''80-'', deadlock)], Shards = [''-80'', ''80-'']\<rparr>"
    by code_simp
  have ins': "inserted_rows new_customers ''u1'' errored_run = 1"
    by code_simp
  have err: "list_all (\<lambda>(n, v). state v = Error \<and> is_ephemeral (last_error v))
               (run_rows ''u1'' errored_run)"
    by code_simp
  show ?thesis
    using rows_compared_after_restart [OF ready before] ins
      rows_compared_after_restart [OF ready' before'] ins' err
    by simp
qed

text \<open>
  C6 as stated fails without these conditions. First: the completed run has compared 3
  rows; one row is inserted on shard \<open>-80\<close> with primary key 500, below the checkpoint
  1001; the resumed run starts after the checkpoint and completes with 3, not \<open>3 + 1\<close>.
  Second: a run stopped after 1 row reports 1; nothing is inserted; the resumed run
  compares the rows that were left and completes with 3, not \<open>1 + 0\<close>.
\<close>

theorem rows_compared_counterexample:
  "show_run ''u1'' completed_run
     = Inr \<lparr>UUID = ''u1'', State = Completed, RowsCompared = 3, HasMismatch = False,
            Errors = [], Shards = [''-80'', ''80-'']\<rparr>
   \<and> length (customers_low_insert ''-80'' ''customer'') = length (customers ''-80'' ''customer'') + 1
   \<and> show_run ''u1''
        (differ_all None customers_low_insert customers_low_insert ''u1''
           (apply_action (Resume ''u1'') completed_run))
     = Inr \<lparr>UUID = ''u1'', State = Completed, RowsCompared = 3, HasMismatch = False,
            Errors = [], Shards = [''-80'', ''80-'']\<rparr>
   \<and> \<not> rows_compared_cumulative (show_run ''u1'' completed_run) 1
         (show_run ''u1''
            (differ_all None customers_low_insert customers_low_insert ''u1''
               (apply_action (Resume ''u1'') completed_run)))
   \<and> show_run ''u1'' stopped_run
     = Inr \<lparr>UUID = ''u1'', State = Stopped, RowsCompared = 1, HasMismatch = False,
            Errors = [], Shards = [''-80'', ''80-'']\<rparr>
   \<and> show_run ''u1''
        (differ_all None customers customers ''u1'' (apply_action (Resume ''u1'') stopped_run))
     = Inr \<lparr>UUID = ''u1'', State = Completed, RowsCompared = 3, HasMismatch = False,
            Errors = [], Shards = [''-80'', ''80-'']\<rparr>
   \<and> \<not> rows_compared_cumulative (show_run ''u1'' stopped_run) 0
         (show_run ''u1''
            (differ_all None customers customers ''u1''
               (apply_action (Resume ''u1'') stopped_run)))"
  by code_simp

end
